theory Spec2Isabelle
  imports Main "HOL-Library.Sublist"
begin

section \<open>JavaScript values and strings\<close>

text \<open>
  A JavaScript string is modelled by \<^typ>\<open>string\<close>, the list of its code units; the
  code units of the model are those below 256. The values that reach string positions of
  the recorder (the result of a helper evaluated in the page) are a string, \<open>null\<close> or
  \<open>undefined\<close>.
\<close>

datatype jsval = Str string | Null | Undefined

datatype js_error = RangeError | TypeError | ProtocolError

text \<open>Truthiness of a value in a condition: only a non-empty string is truthy.\<close>

fun truthy :: "jsval \<Rightarrow> bool" where
  "truthy (Str s) = (s \<noteq> [])"
| "truthy Null = False"
| "truthy Undefined = False"

text \<open>\<open>`${v}`\<close>: the conversion of a value to a string inside a template literal.\<close>

fun template :: "jsval \<Rightarrow> string" where
  "template (Str s) = s"
| "template Null = ''null''"
| "template Undefined = ''undefined''"

text \<open>\<open>String.prototype.startsWith\<close> and \<open>String.prototype.includes\<close>.\<close>

fun startsWith :: "string \<Rightarrow> string \<Rightarrow> bool" where
  "startsWith s [] = True"
| "startsWith [] (c # t) = False"
| "startsWith (d # s) (c # t) = (d = c \<and> startsWith s t)"

fun includes_str :: "string \<Rightarrow> string \<Rightarrow> bool" where
  "includes_str [] t = (t = [])"
| "includes_str (c # s) t = (startsWith (c # s) t \<or> includes_str s t)"

text \<open>\<open>String.prototype.repeat\<close> throws a RangeError on a negative count.\<close>

definition repeat :: "string \<Rightarrow> int \<Rightarrow> js_error + string" where
  "repeat s count =
     (if count < 0 then Inl RangeError else Inr (concat (replicate (nat count) s)))"

text \<open>Decimal rendering of a non-negative integer, as a template literal prints it.\<close>

fun digits :: "nat \<Rightarrow> string" where
  "digits n =
     (if n < 10 then [char_of (48 + n)]
      else digits (n div 10) @ [char_of (48 + n mod 10)])"

declare digits.simps [simp del]

subsection \<open>\<open>JSON.stringify\<close> on strings\<close>

definition hex :: "nat \<Rightarrow> char" where
  "hex n = (if n < 10 then char_of (48 + n) else char_of (87 + n))"

text \<open>
  The escape of one code unit in a JSON string literal: the two-character escapes for
  backspace, tab, line feed, form feed, carriage return, the double quote and the
  backslash; \<open>\u00XX\<close> in lower-case hexadecimal for every other control character; the
  code unit itself otherwise.
\<close>

definition quote_char :: "char \<Rightarrow> string" where
  "quote_char c =
     (if c = CHR 0x08 then [CHR 0x5C, CHR ''b'']
      else if c = CHR 0x09 then [CHR 0x5C, CHR ''t'']
      else if c = CHR 0x0A then [CHR 0x5C, CHR ''n'']
      else if c = CHR 0x0C then [CHR 0x5C, CHR ''f'']
      else if c = CHR 0x0D then [CHR 0x5C, CHR ''r'']
      else if c = CHR 0x22 then [CHR 0x5C, CHR 0x22]
      else if c = CHR 0x5C then [CHR 0x5C, CHR 0x5C]
      else if (of_char c :: nat) < 32
        then [CHR 0x5C, CHR ''u'', CHR ''0'', CHR ''0'',
              hex (of_char c div 16), hex (of_char c mod 16)]
      else [c])"

definition quote_string :: "string \<Rightarrow> string" where
  "quote_string s = CHR 0x22 # concat (map quote_char s) @ [CHR 0x22]"

text \<open>
  \<open>JSON.stringify(v)\<close>: a quoted literal for a string, the text \<open>null\<close> for \<open>null\<close>, and
  \<open>undefined\<close> (no text at all) for \<open>undefined\<close>.
\<close>

fun JSON_stringify :: "jsval \<Rightarrow> jsval" where
  "JSON_stringify (Str s) = Str (quote_string s)"
| "JSON_stringify Null = Str ''null''"
| "JSON_stringify Undefined = Undefined"

definition escapeSelector :: "jsval \<Rightarrow> jsval" where
  "escapeSelector selector = JSON_stringify selector"

subsection \<open>Reading a string literal back\<close>

text \<open>
  The string-literal grammar of the runtime that executes the emitted script.
  \<open>string_body q s\<close> reads the characters of a literal opened by the quote \<open>q\<close> up to the
  closing quote and returns the string value and the rest of the input. It has no value
  at an unescaped line terminator, at a malformed escape and at the end of the input.
  The escapes read are the single-character ones, \<open>\0\<close>, \<open>\xHH\<close>, \<open>\uHHHH\<close> (for a
  code unit of the model) and the line continuation; the octal escapes of sloppy mode and
  the braced \<open>\u{...}\<close> are given no value.
\<close>

definition hex_val :: "char \<Rightarrow> nat option" where
  "hex_val c =
     (let n = (of_char c :: nat) in
      if 48 \<le> n \<and> n \<le> 57 then Some (n - 48)
      else if 97 \<le> n \<and> n \<le> 102 then Some (n - 87)
      else if 65 \<le> n \<and> n \<le> 70 then Some (n - 55)
      else None)"

definition hex2 :: "char \<Rightarrow> char \<Rightarrow> nat option" where
  "hex2 a b =
     (case (hex_val a, hex_val b) of
        (Some x, Some y) \<Rightarrow> Some (x * 16 + y)
      | _ \<Rightarrow> None)"

definition hex4 :: "char \<Rightarrow> char \<Rightarrow> char \<Rightarrow> char \<Rightarrow> nat option" where
  "hex4 a b c d =
     (case (hex2 a b, hex2 c d) of
        (Some x, Some y) \<Rightarrow> Some (x * 256 + y)
      | _ \<Rightarrow> None)"

definition is_digit :: "char \<Rightarrow> bool" where
  "is_digit c = (48 \<le> (of_char c :: nat) \<and> (of_char c :: nat) \<le> 57)"

definition single_escape :: "char \<Rightarrow> char" where
  "single_escape c =
     (if c = CHR ''b'' then CHR 0x08
      else if c = CHR ''t'' then CHR 0x09
      else if c = CHR ''n'' then CHR 0x0A
      else if c = CHR ''v'' then CHR 0x0B
      else if c = CHR ''f'' then CHR 0x0C
      else if c = CHR ''r'' then CHR 0x0D
      else c)"

definition cons_value :: "char \<Rightarrow> (string \<times> string) option \<Rightarrow> (string \<times> string) option" where
  "cons_value c r = map_option (\<lambda>(v, rest). (c # v, rest)) r"

fun string_body :: "char \<Rightarrow> string \<Rightarrow> (string \<times> string) option" where
  "string_body q [] = None"
| "string_body q (c # s) =
     (if c = q then Some ([], s)
      else if c = CHR 0x0A \<or> c = CHR 0x0D then None
      else if c \<noteq> CHR 0x5C then cons_value c (string_body q s)
      else
        (case s of
           [] \<Rightarrow> None
         | d # s1 \<Rightarrow>
             if d = CHR ''u'' then
               (case s1 of
                  h1 # h2 # h3 # h4 # s2 \<Rightarrow>
                    (case hex4 h1 h2 h3 h4 of
                       Some n \<Rightarrow>
                         if n < 256 then cons_value (char_of n) (string_body q s2) else None
                     | None \<Rightarrow> None)
                | _ \<Rightarrow> None)
             else if d = CHR ''x'' then
               (case s1 of
                  h1 # h2 # s2 \<Rightarrow>
                    (case hex2 h1 h2 of
                       Some n \<Rightarrow> cons_value (char_of n) (string_body q s2)
                     | None \<Rightarrow> None)
                | _ \<Rightarrow> None)
             else if d = CHR 0x0A then string_body q s1
             else if d = CHR 0x0D then
               (case s1 of
                  e # s2 \<Rightarrow> if e = CHR 0x0A then string_body q s2 else string_body q s1
                | [] \<Rightarrow> None)
             else if d = CHR ''0'' then
               (case s1 of
                  e # s2 \<Rightarrow> if is_digit e then None else cons_value (CHR 0x00) (string_body q s1)
                | [] \<Rightarrow> None)
             else if is_digit d then None
             else cons_value (single_escape d) (string_body q s1)))"

text \<open>A literal is an opening quote, single or double, and a body closed by the same quote.\<close>

fun string_literal :: "string \<Rightarrow> (string \<times> string) option" where
  "string_literal [] = None"
| "string_literal (q # s) =
     (if q = CHR 0x22 \<or> q = CHR 0x27 then string_body q s else None)"

section \<open>The debugging session\<close>

text \<open>
  The requests the recorder sends, in the order it sends them. The helper functions of
  \<open>helpers\<close> (\<open>isSubmitButton\<close>, \<open>getParent\<close>, \<open>cssPath\<close>) run inside the page; the recorder
  only sees what they return, so they are parameters of the model.
\<close>

datatype function_declaration =
    Helper_isSubmitButton | Helper_getParent | Helper_cssPath | Getter_value

datatype ax_scope = ByObjectId string | ByBackendNodeId nat

datatype command =
    Debugger_enable
  | DOMDebugger_setEventListenerBreakpoint string
  | Debugger_resume
  | Debugger_setSkipAllPauses bool
  | Runtime_getProperties string
  | Runtime_callFunctionOn function_declaration string
  | Runtime_evaluate string
  | DOM_getDocument int
  | DOM_getOuterHTML nat
  | Accessibility_queryAXTree ax_scope "string option" "string option"
  | Page_goto string
  | Browser_close
  | Process_exit

text \<open>
  A node of the accessibility tree as the recorder reads it: the values of its name and of
  its role, which the query computes for every node it answers, and the backend id of its
  DOM node, which may be missing. An object of the page as a property value: its class name
  and its object id, both missing for a primitive value; a property may have no value.
\<close>

record AXNode =
  ax_name :: string
  ax_role :: string
  backendDOMNodeId :: "nat option"

record RemoteObject =
  className :: "string option"
  ro_objectId :: "string option"

record PropertyDescriptor =
  prop_name :: string
  prop_value :: "RemoteObject option"

text \<open>
  What the page and the process environment answer while one handler runs. The page is
  stopped at the breakpoint during a handler, so its answers do not change in between.
  A request the browser rejects (a protocol failure) ends the session and is not part of
  the model, except for a request that lacks its object.
\<close>

record env =
  getProperties :: "string \<Rightarrow> PropertyDescriptor list"
  isSubmitButton_result :: "string \<Rightarrow> bool"
  getParent_result :: "string \<Rightarrow> string option"
  cssPath_result :: "string \<Rightarrow> jsval"
  value_result :: "string \<Rightarrow> jsval"
  root_backendNodeId :: nat
  root_nodeId :: nat
  queryAXTree :: "ax_scope \<Rightarrow> string option \<Rightarrow> string option \<Rightarrow> AXNode list"
  scrollHeight :: int
  outerHTML :: string
  date_now :: nat

record RecorderOptions =
  wsEndpoint :: "string option"
  saveDom :: bool

section \<open>Selector resolution\<close>

text \<open>\<open>isSubmitButton\<close>: one call of the helper on the object; the answer is its result.\<close>

definition isSubmitButton :: "env \<Rightarrow> string \<Rightarrow> bool \<times> command list" where
  "isSubmitButton client objectId =
     (isSubmitButton_result client objectId,
      [Runtime_callFunctionOn Helper_isSubmitButton objectId])"

text \<open>
  \<open>checkUnique\<close>: the document's accessibility tree is queried from the root with the name
  and the role, the nodes whose backend id is one of the ignored nodes' are dropped, and
  the answer is whether fewer than two nodes are left.
\<close>

definition checkUnique ::
  "env \<Rightarrow> AXNode list \<Rightarrow> string option \<Rightarrow> string option \<Rightarrow> bool \<times> command list" where
  "checkUnique client ignored nm rl =
     (let root = root_backendNodeId client;
          checkName = queryAXTree client (ByBackendNodeId root) nm rl;
          ignoredIds = set (map backendDOMNodeId ignored);
          checkNameMinusTargetTree =
            filter (\<lambda>axNode. backendDOMNodeId axNode \<notin> ignoredIds) checkName
      in (length checkNameMinusTargetTree < 2,
          [DOM_getDocument 0, Accessibility_queryAXTree (ByBackendNodeId root) nm rl]))"

text \<open>
  One pass through the body of the loop of \<open>getSelector\<close> for the object \<open>currentObjectId\<close>,
  with the requests sent so far: the pass returns a selector, leaves the loop (\<open>break\<close>), or
  goes on with the parent the helper answers, and the name it has read.
\<close>

datatype iteration_result =
    Returns string "command list"
  | Breaks "command list"
  | Continues "string option" string "command list"

definition iteration :: "env \<Rightarrow> string \<Rightarrow> string \<Rightarrow> command list \<Rightarrow> iteration_result" where
  "iteration client currentObjectId prevName sent =
     (let targetNodes = queryAXTree client (ByObjectId currentObjectId) None None;
          sent1 = sent @ [Accessibility_queryAXTree (ByObjectId currentObjectId) None None]
      in
      case targetNodes of
        [] \<Rightarrow> Breaks sent1
      | axNode # _ \<Rightarrow>
          let nm = ax_name axNode; rl = ax_role axNode in
          if \<not> includes_str nm prevName then Breaks sent1
          else
            let (uniqueName, c1) = checkUnique client targetNodes (Some nm) None;
                sent2 = sent1 @ c1
            in
            if nm \<noteq> [] \<and> uniqueName then Returns (''aria/'' @ nm) sent2
            else
              let (uniqueNameRole, c2) = checkUnique client targetNodes (Some nm) (Some rl);
                  sent3 = sent2 @ c2
              in
              if nm \<noteq> [] \<and> rl \<noteq> [] \<and> uniqueNameRole
              then Returns (''aria/'' @ nm @ ''[role='' @ [CHR 0x22] @ rl @ [CHR 0x22] @ '']'')
                     sent3
              else Continues (getParent_result client currentObjectId) nm
                     (sent3 @ [Runtime_callFunctionOn Helper_getParent currentObjectId]))"

text \<open>
  The code after the loop: the structural selector of the original object is asked for
  and returned as it is.
\<close>

definition after_loop :: "env \<Rightarrow> string \<Rightarrow> command list \<Rightarrow> jsval \<times> command list" where
  "after_loop client objectId sent =
     (cssPath_result client objectId,
      sent @ [Runtime_callFunctionOn Helper_cssPath objectId])"

text \<open>
  The loop runs while \<open>currentObjectId\<close> is truthy, that is as long as the helper
  \<open>getParent\<close> answers with an object, so it is a partial function: the value \<open>None\<close> is a
  walk that never ends.
\<close>

partial_function (option) getSelector_loop ::
  "env \<Rightarrow> string \<Rightarrow> string option \<Rightarrow> string \<Rightarrow> command list
     \<Rightarrow> (jsval \<times> command list) option" where
  "getSelector_loop client objectId currentObjectId prevName sent =
     (case currentObjectId of
        None \<Rightarrow> Some (after_loop client objectId sent)
      | Some cur \<Rightarrow>
          if cur = [] then Some (after_loop client objectId sent)
          else
            (case iteration client cur prevName sent of
               Returns selector sent' \<Rightarrow> Some (Str selector, sent')
             | Breaks sent' \<Rightarrow> Some (after_loop client objectId sent')
             | Continues parent nm sent' \<Rightarrow>
                 getSelector_loop client objectId parent nm sent'))"

declare getSelector_loop.simps [code]

definition getSelector :: "env \<Rightarrow> string \<Rightarrow> (jsval \<times> command list) option" where
  "getSelector client objectId = getSelector_loop client objectId (Some objectId) [] []"

text \<open>
  The state at the head of the loop after \<open>k\<close> passes that all went on: the current object,
  the previous name and the requests sent.
\<close>

fun loop_head :: "env \<Rightarrow> string \<Rightarrow> nat \<Rightarrow> (string option \<times> string \<times> command list) option" where
  "loop_head client objectId 0 = Some (Some objectId, [], [])"
| "loop_head client objectId (Suc k) =
     (case loop_head client objectId k of
        Some (Some cur, prevName, sent) \<Rightarrow>
          if cur = [] then None
          else
            (case iteration client cur prevName sent of
               Continues parent nm sent' \<Rightarrow> Some (parent, nm, sent')
             | _ \<Rightarrow> None)
      | _ \<Rightarrow> None)"

section \<open>The recording session\<close>

text \<open>
  The output stream is the sequence of the pushes the recorder makes on it: a chunk of
  text, or the end-of-stream marker (\<open>push(null)\<close>).
\<close>

datatype chunk = Data string | EOF

text \<open>
  The state the handlers share: the indentation depth, the pushes on the output stream, the
  lines logged to the console, the requests sent to the browser, the pending scroll check
  (\<open>scrollTimeout\<close> is set or null) with the timers started (delay in milliseconds and the
  scroll height the callback has captured), the files of the working directory, whether the
  process has exited, and the errors thrown out of handlers.
\<close>

record recorder =
  identation :: int
  out :: "chunk list"
  console :: "string list"
  requests :: "command list"
  scrollTimeout :: bool
  timers :: "(nat \<times> int) list"
  files :: "(string \<times> string) list"
  exited :: bool
  rejections :: "js_error list"

text \<open>
  A handler ends normally, throws (the state keeps what it did before), or never ends.
\<close>

datatype outcome = Done recorder | Threw js_error recorder | Diverged

fun and_then :: "outcome \<Rightarrow> (recorder \<Rightarrow> outcome) \<Rightarrow> outcome" where
  "and_then (Done s) k = k s"
| "and_then (Threw e s) k = Threw e s"
| "and_then Diverged k = Diverged"

definition send :: "command \<Rightarrow> recorder \<Rightarrow> recorder" where
  "send c s = s\<lparr>requests := requests s @ [c]\<rparr>"

definition send_all :: "command list \<Rightarrow> recorder \<Rightarrow> recorder" where
  "send_all cs s = s\<lparr>requests := requests s @ cs\<rparr>"

definition addLineToPuppeteerScript :: "string \<Rightarrow> recorder \<Rightarrow> outcome" where
  "addLineToPuppeteerScript line s =
     (case repeat ''  '' (identation s) of
        Inl e \<Rightarrow> Threw e s
      | Inr pad \<Rightarrow>
          let data = pad @ line in
          Done (s\<lparr>out := out s @ [Data (data @ [CHR 0x0A])]\<rparr>))"

text \<open>
  The name of the snapshot file: \<open>timestamp.html\<close>, then \<open>timestamp_1.html\<close>,
  \<open>timestamp_2.html\<close>, ... until no file of that name exists.
\<close>

partial_function (option) freeFileName ::
  "string list \<Rightarrow> nat \<Rightarrow> string \<Rightarrow> nat \<Rightarrow> string option" where
  "freeFileName existing timestamp fileName sfx =
     (if fileName \<in> set existing
      then freeFileName existing timestamp
             (digits timestamp @ ''_'' @ digits sfx @ ''.html'') (sfx + 1)
      else Some fileName)"

declare freeFileName.simps [code]

definition saveDomIfNeeded :: "env \<Rightarrow> RecorderOptions \<Rightarrow> recorder \<Rightarrow> outcome" where
  "saveDomIfNeeded client options s =
     (if \<not> saveDom options then Done s
      else
        let s1 = send (DOM_getDocument (- 1)) s;
            s2 = send (DOM_getOuterHTML (root_nodeId client)) s1;
            timestamp = date_now client div 1000
        in
        case freeFileName (map fst (files s2)) timestamp (digits timestamp @ ''.html'') 1 of
          None \<Rightarrow> Diverged
        | Some fileName \<Rightarrow>
            addLineToPuppeteerScript (''// saved DOM to '' @ fileName)
              (s2\<lparr>files := files s2 @ [(fileName, outerHTML client)]\<rparr>))"

text \<open>
  \<open>findTargetId\<close>: the first property of the local scope whose value has one of the class
  names is the event; its properties are read and the object of the one called \<open>target\<close>
  is the answer. Reading a field of \<open>undefined\<close> throws a TypeError, and the request for
  the properties of an event without object id is rejected.
\<close>

fun find_event :: "PropertyDescriptor list \<Rightarrow> string list \<Rightarrow> js_error + PropertyDescriptor option" where
  "find_event [] interestingClassNames = Inr None"
| "find_event (prop # props) interestingClassNames =
     (case prop_value prop of
        None \<Rightarrow> Inl TypeError
      | Some v \<Rightarrow>
          (case className v of
             None \<Rightarrow> find_event props interestingClassNames
           | Some cn \<Rightarrow>
               if cn \<in> set interestingClassNames then Inr (Some prop)
               else find_event props interestingClassNames))"

definition findTargetId ::
  "env \<Rightarrow> PropertyDescriptor list \<Rightarrow> string list \<Rightarrow> recorder
     \<Rightarrow> (js_error + string option) \<times> recorder" where
  "findTargetId client localFrame interestingClassNames s =
     (case find_event localFrame interestingClassNames of
        Inl e \<Rightarrow> (Inl e, s)
      | Inr None \<Rightarrow> (Inl TypeError, s)
      | Inr (Some event) \<Rightarrow>
          (case prop_value event of
             None \<Rightarrow> (Inl TypeError, s)
           | Some ev \<Rightarrow>
               (case ro_objectId ev of
                  None \<Rightarrow> (Inl ProtocolError, s)
                | Some eventId \<Rightarrow>
                    let s1 = send (Runtime_getProperties eventId) s in
                    (case find (\<lambda>prop. prop_name prop = ''target'')
                            (getProperties client eventId) of
                       None \<Rightarrow> (Inl TypeError, s1)
                     | Some target \<Rightarrow>
                         (case prop_value target of
                            None \<Rightarrow> (Inl TypeError, s1)
                          | Some tv \<Rightarrow> (Inr (ro_objectId tv), s1))))))"

definition skip :: "recorder \<Rightarrow> recorder" where
  "skip s = send Debugger_resume s"

definition resume :: "recorder \<Rightarrow> recorder" where
  "resume s =
     send (Debugger_setSkipAllPauses False) (skip (send (Debugger_setSkipAllPauses True) s))"

definition console_log :: "string \<Rightarrow> recorder \<Rightarrow> recorder" where
  "console_log msg s = s\<lparr>console := console s @ [msg]\<rparr>"

text \<open>
  The three handlers of element events. The browser rejects a request on an object that
  is \<open>undefined\<close>, which each handler would send first for such a target.
\<close>

definition handleClickEvent ::
  "env \<Rightarrow> RecorderOptions \<Rightarrow> PropertyDescriptor list \<Rightarrow> recorder \<Rightarrow> outcome" where
  "handleClickEvent client options localFrame s =
     (case findTargetId client localFrame [''MouseEvent'', ''PointerEvent''] s of
        (Inl e, s1) \<Rightarrow> Threw e s1
      | (Inr None, s1) \<Rightarrow> Threw ProtocolError s1
      | (Inr (Some targetId), s1) \<Rightarrow>
          let (isSubmit, c) = isSubmitButton client targetId;
              s2 = send_all c s1
          in
          if isSubmit then Done (skip s2)
          else
            (case getSelector client targetId of
               None \<Rightarrow> Diverged
             | Some (selector, c') \<Rightarrow>
                 let s3 = send_all c' s2 in
                 and_then
                   (if truthy selector then
                      and_then (saveDomIfNeeded client options s3)
                        (addLineToPuppeteerScript
                           (''await click('' @ template (escapeSelector selector) @ '');''))
                    else Done (console_log ''failed to generate selector'' s3))
                   (\<lambda>s4. Done (resume s4))))"

definition handleSubmitEvent ::
  "env \<Rightarrow> PropertyDescriptor list \<Rightarrow> recorder \<Rightarrow> outcome" where
  "handleSubmitEvent client localFrame s =
     (case findTargetId client localFrame [''SubmitEvent''] s of
        (Inl e, s1) \<Rightarrow> Threw e s1
      | (Inr None, s1) \<Rightarrow> Threw ProtocolError s1
      | (Inr (Some targetId), s1) \<Rightarrow>
          (case getSelector client targetId of
             None \<Rightarrow> Diverged
           | Some (selector, c') \<Rightarrow>
               let s2 = send_all c' s1 in
               and_then
                 (if truthy selector then
                    addLineToPuppeteerScript
                      (''await submit('' @ template (escapeSelector selector) @ '');'') s2
                  else Done (console_log ''failed to generate selector'' s2))
                 (\<lambda>s3. Done (resume s3))))"

definition handleChangeEvent ::
  "env \<Rightarrow> PropertyDescriptor list \<Rightarrow> recorder \<Rightarrow> outcome" where
  "handleChangeEvent client localFrame s =
     (case findTargetId client localFrame [''Event''] s of
        (Inl e, s1) \<Rightarrow> Threw e s1
      | (Inr None, s1) \<Rightarrow> Threw ProtocolError s1
      | (Inr (Some targetId), s1) \<Rightarrow>
          let s2 = send (Runtime_callFunctionOn Getter_value targetId) s1;
              v = value_result client targetId
          in
          (case getSelector client targetId of
             None \<Rightarrow> Diverged
           | Some (selector, c') \<Rightarrow>
               let s3 = send_all c' s2 in
               and_then
                 (addLineToPuppeteerScript
                    (''await type('' @ template (escapeSelector selector) @ '', ''
                       @ template (escapeSelector v) @ '');'') s3)
                 (\<lambda>s4. Done (resume s4))))"

text \<open>
  The scroll handler and the callback of its timer. The timer is started with a delay of
  1000 milliseconds and keeps the scroll height measured by the handler.
\<close>

definition handleScrollEvent :: "env \<Rightarrow> recorder \<Rightarrow> outcome" where
  "handleScrollEvent client s =
     (if scrollTimeout s then Done (resume s)
      else
        let s1 = send (Runtime_evaluate ''document.scrollingElement.scrollHeight'') s;
            prevScrollHeight = scrollHeight client;
            s2 = s1\<lparr>scrollTimeout := True,
                    timers := timers s1 @ [(1000, prevScrollHeight)]\<rparr>
        in Done (resume s2))"

definition scrollCheck :: "env \<Rightarrow> int \<Rightarrow> recorder \<Rightarrow> outcome" where
  "scrollCheck client prevScrollHeight s =
     (let s1 = send (Runtime_evaluate ''document.scrollingElement.scrollHeight'') s;
          currentScrollHeight = scrollHeight client
      in
      and_then
        (if currentScrollHeight > prevScrollHeight
         then addLineToPuppeteerScript ''await scrollToBottom();'' s1
         else Done s1)
        (\<lambda>s2. Done (s2\<lparr>scrollTimeout := False\<rparr>)))"

text \<open>
  The listener of \<open>Debugger.paused\<close>. A pause has a call frame with a local scope; its
  \<open>data\<close> may be missing (the outer \<open>None\<close>: reading the event name throws a TypeError),
  and so may the event name inside it (the inner \<open>None\<close>).
\<close>

record PausedEvent =
  data_eventName :: "string option option"
  scope_objectId :: string

definition on_paused :: "env \<Rightarrow> RecorderOptions \<Rightarrow> PausedEvent \<Rightarrow> recorder \<Rightarrow> outcome" where
  "on_paused client options pausedEvent s =
     (case data_eventName pausedEvent of
        None \<Rightarrow> Threw TypeError s
      | Some eventName \<Rightarrow>
          let s1 = send (Runtime_getProperties (scope_objectId pausedEvent)) s;
              result = getProperties client (scope_objectId pausedEvent)
          in
          if eventName = Some ''listener:click'' then handleClickEvent client options result s1
          else if eventName = Some ''listener:submit'' then handleSubmitEvent client result s1
          else if eventName = Some ''listener:change'' then handleChangeEvent client result s1
          else if eventName = Some ''listener:scroll'' then handleScrollEvent client s1
          else Done (skip s1))"

text \<open>The other listeners: page load, navigation of a frame, the scroll timer.\<close>

definition on_domcontentloaded :: "recorder \<Rightarrow> outcome" where
  "on_domcontentloaded s =
     Done (send_all
       [Debugger_enable,
        DOMDebugger_setEventListenerBreakpoint ''click'',
        DOMDebugger_setEventListenerBreakpoint ''change'',
        DOMDebugger_setEventListenerBreakpoint ''submit''] s)"

definition on_framenavigated :: "bool \<Rightarrow> string \<Rightarrow> recorder \<Rightarrow> outcome" where
  "on_framenavigated hasParentFrame frameUrl s =
     (if hasParentFrame then Done s
      else addLineToPuppeteerScript
             (''expect(page.url()).resolves.toBe(''
                @ template (escapeSelector (Str frameUrl)) @ '');'') s)"

definition on_timeout :: "env \<Rightarrow> recorder \<Rightarrow> outcome" where
  "on_timeout client s =
     (case timers s of
        [] \<Rightarrow> Done s
      | (delay, prevScrollHeight) # rest \<Rightarrow>
          scrollCheck client prevScrollHeight (s\<lparr>timers := rest\<rparr>))"

text \<open>
  \<open>close\<close>, the listener of the page's \<open>close\<close> event, and the listener of \<open>SIGINT\<close>, which
  ends the process once \<open>close\<close> has returned.
\<close>

definition close :: "RecorderOptions \<Rightarrow> recorder \<Rightarrow> outcome" where
  "close options s =
     (let s1 = s\<lparr>identation := identation s - 1\<rparr> in
      and_then (addLineToPuppeteerScript ''});'' s1)
        (\<lambda>s2.
           let s3 = s2\<lparr>out := out s2 @ [EOF]\<rparr> in
           Done (if wsEndpoint options = None \<or> wsEndpoint options = Some []
                 then send Browser_close s3 else s3)))"

definition on_sigint :: "RecorderOptions \<Rightarrow> recorder \<Rightarrow> outcome" where
  "on_sigint options s =
     and_then (close options s) (\<lambda>s1. Done ((send Process_exit s1)\<lparr>exited := True\<rparr>))"

text \<open>
  The exported function up to the point where it returns the stream: the address is
  completed, the two opening lines of the script are written, the depth goes up by one and
  the page is opened.
\<close>

definition require_line :: string where
  "require_line =
     ''const {open, click, type, submit, expect, scrollToBottom} = require(''
       @ [CHR 0x27] @ ''@puppeteer/recorder'' @ [CHR 0x27] @ '');''"

definition open_line :: "string \<Rightarrow> string" where
  "open_line url = ''open('' @ [CHR 0x27] @ url @ [CHR 0x27] @ '', {}, async (page) => {''"

definition initial :: "(string \<times> string) list \<Rightarrow> recorder" where
  "initial fs =
     \<lparr>identation = 0, out = [], console = [], requests = [], scrollTimeout = False,
      timers = [], files = fs, exited = False, rejections = []\<rparr>"

definition start :: "string \<Rightarrow> (string \<times> string) list \<Rightarrow> outcome" where
  "start url0 fs =
     (let url = (if \<not> startsWith url0 ''http'' then ''https://'' @ url0 else url0) in
      and_then (addLineToPuppeteerScript require_line (initial fs))
        (\<lambda>s1. and_then (addLineToPuppeteerScript (open_line url) s1)
           (\<lambda>s2. Done (send (Page_goto url) (s2\<lparr>identation := identation s2 + 1\<rparr>)))))"

section \<open>Runs of the recorder\<close>

datatype event =
    DomContentLoaded
  | Paused env PausedEvent
  | FrameNavigated bool string
  | Timeout env
  | PageClose
  | SIGINT

fun on_event :: "RecorderOptions \<Rightarrow> event \<Rightarrow> recorder \<Rightarrow> outcome" where
  "on_event options DomContentLoaded s = on_domcontentloaded s"
| "on_event options (Paused client pausedEvent) s = on_paused client options pausedEvent s"
| "on_event options (FrameNavigated hasParentFrame frameUrl) s =
     on_framenavigated hasParentFrame frameUrl s"
| "on_event options (Timeout client) s = on_timeout client s"
| "on_event options PageClose s = close options s"
| "on_event options SIGINT s = on_sigint options s"

text \<open>
  A run handles the events one after the other, each handler as a whole. An error thrown
  out of a handler is an unhandled rejection: the run goes on. Nothing is handled after the
  process has exited, and a run in which a handler never ends has no final state.
\<close>

fun run :: "RecorderOptions \<Rightarrow> event list \<Rightarrow> recorder \<Rightarrow> recorder option" where
  "run options [] s = Some s"
| "run options (e # es) s =
     (if exited s then Some s
      else
        (case on_event options e s of
           Done s' \<Rightarrow> run options es s'
         | Threw err s' \<Rightarrow> run options es (s'\<lparr>rejections := rejections s' @ [err]\<rparr>)
         | Diverged \<Rightarrow> None))"

fun is_finalization :: "event \<Rightarrow> bool" where
  "is_finalization PageClose = True"
| "is_finalization SIGINT = True"
| "is_finalization _ = False"

text \<open>
  A session: the exported function is called, then the events arrive. If the call throws
  there is no stream and no session.
\<close>

definition session ::
  "string \<Rightarrow> (string \<times> string) list \<Rightarrow> RecorderOptions \<Rightarrow> event list \<Rightarrow> recorder option" where
  "session url fs options events =
     (case start url fs of
        Done s \<Rightarrow> run options events s
      | Threw err s \<Rightarrow> None
      | Diverged \<Rightarrow> None)"

text \<open>The state in which the exported function returns the stream, for the address it opens.\<close>

definition started :: "string \<Rightarrow> (string \<times> string) list \<Rightarrow> recorder" where
  "started url fs =
     \<lparr>identation = 1,
      out = [Data (require_line @ [CHR 0x0A]), Data (open_line url @ [CHR 0x0A])],
      console = [], requests = [Page_goto url], scrollTimeout = False,
      timers = [], files = fs, exited = False, rejections = []\<rparr>"

section \<open>Notions of the specification\<close>

text \<open>
  A script line at a depth, as the specification describes it: two spaces per level, the
  line, a newline.
\<close>

definition indent :: "int \<Rightarrow> string \<Rightarrow> chunk" where
  "indent depth line = Data (concat (replicate (nat depth) ''  '') @ line @ [CHR 0x0A])"

text \<open>
  The nodes that remain for the uniqueness test: those of the whole document's
  accessibility tree with the name (and the role, if given) that are not nodes of the
  candidate subtree.
\<close>

definition remaining ::
  "env \<Rightarrow> AXNode list \<Rightarrow> string option \<Rightarrow> string option \<Rightarrow> AXNode list" where
  "remaining client ignored nm rl =
     [n \<leftarrow> queryAXTree client (ByBackendNodeId (root_backendNodeId client)) nm rl.
        backendDOMNodeId n \<notin> backendDOMNodeId ` set ignored]"

text \<open>
  Relations between the state before and after a handler, used for the invariants of a
  run: \<open>emits\<close> (the depth and the exit flag are kept and the output grows by script lines at
  that depth), \<open>keeps_timers\<close> and their conjunction; \<open>holds_after P\<close> lifts a property to
  the state an outcome leaves. \<open>timer_inv\<close> is the invariant of the scroll check.
\<close>

definition emits :: "recorder \<Rightarrow> recorder \<Rightarrow> bool" where
  "emits s s' \<longleftrightarrow>
     identation s' = identation s \<and> exited s' = exited s
     \<and> (\<exists>ls. out s' = out s @ map (indent (identation s)) ls)"

definition keeps_timers :: "recorder \<Rightarrow> recorder \<Rightarrow> bool" where
  "keeps_timers s s' \<longleftrightarrow> timers s' = timers s \<and> scrollTimeout s' = scrollTimeout s"

definition quiet :: "recorder \<Rightarrow> recorder \<Rightarrow> bool" where
  "quiet s s' \<longleftrightarrow> emits s s' \<and> keeps_timers s s'"

fun holds_after :: "(recorder \<Rightarrow> bool) \<Rightarrow> outcome \<Rightarrow> bool" where
  "holds_after P (Done s) = P s"
| "holds_after P (Threw e s) = P s"
| "holds_after P Diverged = True"

definition timer_inv :: "recorder \<Rightarrow> bool" where
  "timer_inv s \<longleftrightarrow>
     length (timers s) \<le> 1 \<and> (timers s \<noteq> [] \<longrightarrow> scrollTimeout s)
     \<and> (\<forall>t \<in> set (timers s). fst t = 1000)"

section \<open>A page for the examples\<close>

text \<open>
  A document whose accessibility tree has three nodes named \<open>Login\<close> (one of them a
  button), a toolbar with three buttons named \<open>Save draft\<close>, one button named \<open>Go\<close> that
  submits a form, and a text field without accessibility node for which the helper
  \<open>cssPath\<close> gives \<open>null\<close>. The local scope \<open>scope:x\<close> of a pause holds the event
  \<open>event:x\<close>, whose target is the object \<open>x\<close>.
\<close>

definition demo_node :: "string \<Rightarrow> string \<Rightarrow> nat \<Rightarrow> AXNode" where
  "demo_node nm rl n = \<lparr>ax_name = nm, ax_role = rl, backendDOMNodeId = Some n\<rparr>"

definition demo_document :: "AXNode list" where
  "demo_document =
     [demo_node ''Login'' ''button'' 7, demo_node ''Login'' ''link'' 9,
      demo_node ''Login'' ''link'' 10, demo_node ''Toolbar'' ''toolbar'' 19,
      demo_node ''Save draft'' ''button'' 20, demo_node ''Save draft'' ''button'' 21,
      demo_node ''Save draft'' ''button'' 22, demo_node ''Go'' ''button'' 30]"

definition demo_page :: "string \<Rightarrow> env" where
  "demo_page eventClass =
     \<lparr>getProperties = (\<lambda>oid.
        if startsWith oid ''scope:'' then
          [\<lparr>prop_name = ''this'',
            prop_value = Some \<lparr>className = Some ''Window'', ro_objectId = Some ''window''\<rparr>\<rparr>,
           \<lparr>prop_name = ''event'',
            prop_value = Some \<lparr>className = Some eventClass,
                               ro_objectId = Some (''event:'' @ drop 6 oid)\<rparr>\<rparr>]
        else if startsWith oid ''event:'' then
          [\<lparr>prop_name = ''isTrusted'',
            prop_value = Some \<lparr>className = None, ro_objectId = None\<rparr>\<rparr>,
           \<lparr>prop_name = ''target'',
            prop_value = Some \<lparr>className = Some ''HTMLElement'',
                               ro_objectId = Some (drop 6 oid)\<rparr>\<rparr>]
        else []),
      isSubmitButton_result = (\<lambda>oid. oid = ''go''),
      getParent_result = (\<lambda>oid.
        if oid = ''save'' then Some ''toolbar''
        else if oid = ''toolbar'' then Some ''body'' else None),
      cssPath_result = (\<lambda>oid. if oid = ''field'' then Null else Str (''#'' @ oid)),
      value_result = (\<lambda>oid. if oid = ''field'' then Str ''x'' else Undefined),
      root_backendNodeId = 1,
      root_nodeId = 1,
      queryAXTree = (\<lambda>scope nm rl.
        case scope of
          ByObjectId oid \<Rightarrow>
            if oid = ''login'' then [demo_node ''Login'' ''button'' 7]
            else if oid = ''go'' then [demo_node ''Go'' ''button'' 30]
            else if oid = ''save'' then [demo_node ''Save draft'' ''button'' 20]
            else if oid = ''toolbar'' then
              [demo_node ''Toolbar'' ''toolbar'' 19, demo_node ''Save draft'' ''button'' 20,
               demo_node ''Save draft'' ''button'' 21, demo_node ''Save draft'' ''button'' 22]
            else []
        | ByBackendNodeId n \<Rightarrow>
            filter (\<lambda>a. (nm = None \<or> nm = Some (ax_name a))
                        \<and> (rl = None \<or> rl = Some (ax_role a))) demo_document),
      scrollHeight = 900,
      outerHTML = ''<html></html>'',
      date_now = 5000\<rparr>"

definition demo_pause :: "string \<Rightarrow> string \<Rightarrow> PausedEvent" where
  "demo_pause eventName x =
     \<lparr>data_eventName = Some (Some eventName), scope_objectId = ''scope:'' @ x\<rparr>"

definition demo_options :: RecorderOptions where
  "demo_options = \<lparr>wsEndpoint = Some ''ws://127.0.0.1:9222'', saveDom = False\<rparr>"

definition demo_url :: string where
  "demo_url = ''https://example.com/it'' @ [CHR 0x27] @ ''s''"

text \<open>The state of the example session after one scroll pause.\<close>

definition demo_scrolled :: recorder where
  "demo_scrolled =
     (started ''https://example.com'' [])
       \<lparr>requests :=
          [Page_goto ''https://example.com'', Runtime_getProperties ''scope:field'',
           Runtime_evaluate ''document.scrollingElement.scrollHeight'',
           Debugger_setSkipAllPauses True, Debugger_resume, Debugger_setSkipAllPauses False],
        scrollTimeout := True,
        timers := [(1000, 900)]\<rparr>"

section \<open>Strings and escaping\<close>

text \<open>
  \<open>startsWith\<close> and \<open>includes\<close> are the prefix and the contiguous-sublist relations of the
  library.
\<close>

lemma startsWith_prefix: "startsWith s t = prefix t s"
  by (induction s t rule: startsWith.induct) auto

lemma includes_str_sublist: "includes_str s t = sublist t s"
  by (induction s) (auto simp: startsWith_prefix sublist_Cons_right)

text \<open>
  A string quoted by \<open>JSON.stringify\<close> is read back by the runtime as the string itself,
  whatever follows the literal.
\<close>

lemma hex_val_hex: "k < 16 \<Longrightarrow> hex_val (hex k) = Some k"
  unfolding hex_val_def hex_def by (auto simp: Let_def)

lemma hex_val_zero: "hex_val (CHR ''0'') = Some 0"
  by (simp add: hex_val_def)

lemma hex4_control:
  fixes n :: nat
  assumes "n < 32"
  shows "hex4 (CHR ''0'') (CHR ''0'') (hex (n div 16)) (hex (n mod 16)) = Some n"
proof -
  have "n div 16 < 16" "n mod 16 < 16" using assms by auto
  then show ?thesis
    by (simp add: hex4_def hex2_def hex_val_hex hex_val_zero)
qed

lemma string_body_plain:
  "c \<noteq> q \<Longrightarrow> c \<noteq> CHR 0x0A \<Longrightarrow> c \<noteq> CHR 0x0D \<Longrightarrow> c \<noteq> CHR 0x5C \<Longrightarrow>
     string_body q (c # t) = cons_value c (string_body q t)"
  by simp

lemma string_body_quote_char:
  "string_body (CHR 0x22) (quote_char c @ t) = cons_value c (string_body (CHR 0x22) t)"
proof -
  consider (short) "c \<in> {CHR 0x08, CHR 0x09, CHR 0x0A, CHR 0x0C, CHR 0x0D, CHR 0x22, CHR 0x5C}"
    | (control) "c \<notin> {CHR 0x08, CHR 0x09, CHR 0x0A, CHR 0x0C, CHR 0x0D, CHR 0x22, CHR 0x5C}"
        "(of_char c :: nat) < 32"
    | (plain) "c \<notin> {CHR 0x08, CHR 0x09, CHR 0x0A, CHR 0x0C, CHR 0x0D, CHR 0x22, CHR 0x5C}"
        "\<not> (of_char c :: nat) < 32"
    by blast
  then show ?thesis
  proof cases
    case short
    then show ?thesis
      by (auto simp: quote_char_def single_escape_def is_digit_def)
  next
    case control
    have "char_of (of_char c :: nat) = c" by simp
    with control show ?thesis
      using hex4_control [of "of_char c"]
      by (simp add: quote_char_def)
  next
    case plain
    then show ?thesis
      by (simp add: quote_char_def)
  qed
qed

lemma string_body_quoted:
  "string_body (CHR 0x22) (concat (map quote_char s) @ CHR 0x22 # rest) = Some (s, rest)"
  by (induction s) (simp_all add: string_body_quote_char cons_value_def)

lemma string_literal_quote_string:
  "string_literal (quote_string s @ rest) = Some (s, rest)"
  by (simp add: quote_string_def string_body_quoted)

text \<open>
  The handlers put a selector, a typed value and the address of a navigation into a line
  through \<open>escapeSelector\<close>, so these are read back as they were.
\<close>

lemma escapeSelector_string:
  "template (escapeSelector (Str s)) = quote_string s"
  by (simp add: escapeSelector_def)

section \<open>Emitting lines\<close>

lemma addLine_nonneg:
  "0 \<le> identation s \<Longrightarrow>
     addLineToPuppeteerScript line s =
       Done (s\<lparr>out := out s @ [Data (concat (replicate (nat (identation s)) ''  '') @ line @ [CHR 0x0A])]\<rparr>)"
  by (simp add: addLineToPuppeteerScript_def repeat_def)

lemma addLine_neg:
  "identation s < 0 \<Longrightarrow> addLineToPuppeteerScript line s = Threw RangeError s"
  by (simp add: addLineToPuppeteerScript_def repeat_def)

lemma start_eq:
  "start url fs = Done (started (if prefix ''http'' url then url else ''https://'' @ url) fs)"
  by (simp add: start_def startsWith_prefix initial_def addLine_nonneg send_def Let_def
      started_def)

lemma session_run:
  "session url fs options evs =
     run options evs (started (if prefix ''http'' url then url else ''https://'' @ url) fs)"
  by (simp add: session_def start_eq)

lemma started_fields:
  "identation (started u fs) = 1" "\<not> exited (started u fs)"
  "out (started u fs) = [indent 0 require_line, indent 0 (open_line u)]"
  by (simp_all add: started_def indent_def)

lemma close_open:
  "identation s = 1 \<Longrightarrow>
     close options s =
       Done ((if wsEndpoint options = None \<or> wsEndpoint options = Some [] then send Browser_close else id)
          (s\<lparr>identation := 0, out := out s @ [Data (''});'' @ [CHR 0x0A]), EOF]\<rparr>))"
  by (simp add: close_def addLine_nonneg Let_def send_def)

lemma close_closed:
  "identation s \<le> 0 \<Longrightarrow> close options s = Threw RangeError (s\<lparr>identation := identation s - 1\<rparr>)"
  by (simp add: close_def addLine_neg Let_def)

section \<open>The walk of the selector resolver\<close>

lemma checkUnique_remaining:
  "checkUnique client ignored nm rl =
     (length (remaining client ignored nm rl) < 2,
      [DOM_getDocument 0,
       Accessibility_queryAXTree (ByBackendNodeId (root_backendNodeId client)) nm rl])"
  by (simp add: checkUnique_def remaining_def Let_def)

lemma iteration_guard:
  assumes "queryAXTree client (ByObjectId cur) None None = axNode # others"
    and "\<not> includes_str (ax_name axNode) prevName"
  shows "iteration client cur prevName sent =
           Breaks (sent @ [Accessibility_queryAXTree (ByObjectId cur) None None])"
  using assms by (simp add: iteration_def Let_def)

lemma iteration_name:
  assumes "queryAXTree client (ByObjectId cur) None None = axNode # others"
    and "includes_str (ax_name axNode) prevName"
    and "ax_name axNode \<noteq> []"
    and "length (remaining client (axNode # others) (Some (ax_name axNode)) None) < 2"
  shows "iteration client cur prevName sent =
           Returns (''aria/'' @ ax_name axNode)
             (sent @ [Accessibility_queryAXTree (ByObjectId cur) None None,
                      DOM_getDocument 0,
                      Accessibility_queryAXTree (ByBackendNodeId (root_backendNodeId client))
                        (Some (ax_name axNode)) None])"
  using assms by (simp add: iteration_def Let_def checkUnique_remaining)


lemma iteration_continues:
  assumes "queryAXTree client (ByObjectId cur) None None = axNode # others"
    and "includes_str (ax_name axNode) prevName"
    and "\<not> (ax_name axNode \<noteq> []
            \<and> length (remaining client (axNode # others) (Some (ax_name axNode)) None) < 2)"
    and "\<not> (ax_name axNode \<noteq> [] \<and> ax_role axNode \<noteq> []
            \<and> length (remaining client (axNode # others) (Some (ax_name axNode))
                         (Some (ax_role axNode))) < 2)"
  shows "iteration client cur prevName sent =
           Continues (getParent_result client cur) (ax_name axNode)
             (sent @ [Accessibility_queryAXTree (ByObjectId cur) None None,
                      DOM_getDocument 0,
                      Accessibility_queryAXTree (ByBackendNodeId (root_backendNodeId client))
                        (Some (ax_name axNode)) None,
                      DOM_getDocument 0,
                      Accessibility_queryAXTree (ByBackendNodeId (root_backendNodeId client))
                        (Some (ax_name axNode)) (Some (ax_role axNode)),
                      Runtime_callFunctionOn Helper_getParent cur])"
  using assms by (simp add: iteration_def Let_def checkUnique_remaining)

text \<open>
  The state at the head of the loop is a state of the loop of \<open>getSelector\<close>: the result of
  the resolver is the result of the loop from there.
\<close>

lemma loop_head_loop:
  "loop_head client objectId k = Some (cur, prevName, sent) \<Longrightarrow>
     getSelector client objectId = getSelector_loop client objectId cur prevName sent"
proof (induction k arbitrary: cur prevName sent)
  case 0
  then show ?case by (simp add: getSelector_def)
next
  case (Suc k)
  from Suc.prems obtain cur0 prev0 sent0 where
    h: "loop_head client objectId k = Some (Some cur0, prev0, sent0)" "cur0 \<noteq> []"
      "iteration client cur0 prev0 sent0 = Continues cur prevName sent"
    by (auto split: option.splits if_splits iteration_result.splits)
  have "getSelector client objectId = getSelector_loop client objectId (Some cur0) prev0 sent0"
    using h(1) by (rule Suc.IH)
  also have "\<dots> = getSelector_loop client objectId cur prevName sent"
    using h(2,3) by (subst getSelector_loop.simps) simp
  finally show ?case .
qed

lemma loop_at_head:
  "loop_head client objectId k = Some (Some cur, prevName, sent) \<Longrightarrow> cur \<noteq> [] \<Longrightarrow>
     getSelector client objectId =
       (case iteration client cur prevName sent of
          Returns selector sent' \<Rightarrow> Some (Str selector, sent')
        | Breaks sent' \<Rightarrow> Some (after_loop client objectId sent')
        | Continues parent nm sent' \<Rightarrow> getSelector_loop client objectId parent nm sent')"
  by (drule loop_head_loop) (subst (asm) getSelector_loop.simps, simp)

lemma iteration_empty:
  "queryAXTree client (ByObjectId cur) None None = [] \<Longrightarrow>
     iteration client cur prevName sent =
       Breaks (sent @ [Accessibility_queryAXTree (ByObjectId cur) None None])"
  by (simp add: iteration_def)

lemma getSelector_first:
  "objectId \<noteq> [] \<Longrightarrow>
     getSelector client objectId =
       (case iteration client objectId [] [] of
          Returns selector sent' \<Rightarrow> Some (Str selector, sent')
        | Breaks sent' \<Rightarrow> Some (after_loop client objectId sent')
        | Continues parent nm sent' \<Rightarrow> getSelector_loop client objectId parent nm sent')"
  by (rule loop_at_head [of _ _ 0]) simp_all

text \<open>The example page at the objects \<open>login\<close>, \<open>go\<close>, \<open>save\<close> and \<open>field\<close>.\<close>

lemma demo_login_nodes:
  "queryAXTree (demo_page c) (ByObjectId ''login'') None None = [demo_node ''Login'' ''button'' 7]"
  "queryAXTree (demo_page c) (ByObjectId ''go'') None None = [demo_node ''Go'' ''button'' 30]"
  "queryAXTree (demo_page c) (ByObjectId ''save'') None None = [demo_node ''Save draft'' ''button'' 20]"
  "queryAXTree (demo_page c) (ByObjectId ''toolbar'') None None =
     [demo_node ''Toolbar'' ''toolbar'' 19, demo_node ''Save draft'' ''button'' 20,
      demo_node ''Save draft'' ''button'' 21, demo_node ''Save draft'' ''button'' 22]"
  "queryAXTree (demo_page c) (ByObjectId ''field'') None None = []"
  by (simp_all add: demo_page_def)

lemma demo_remaining:
  "remaining (demo_page c) [demo_node ''Login'' ''button'' 7] (Some ''Login'') None =
     [demo_node ''Login'' ''link'' 9, demo_node ''Login'' ''link'' 10]"
  "remaining (demo_page c) [demo_node ''Login'' ''button'' 7] (Some ''Login'') (Some ''button'') = []"
  "remaining (demo_page c) [demo_node ''Go'' ''button'' 30] (Some ''Go'') None = []"
  "remaining (demo_page c) [demo_node ''Save draft'' ''button'' 20] (Some ''Save draft'') None =
     [demo_node ''Save draft'' ''button'' 21, demo_node ''Save draft'' ''button'' 22]"
  "remaining (demo_page c) [demo_node ''Save draft'' ''button'' 20] (Some ''Save draft'') (Some ''button'') =
     [demo_node ''Save draft'' ''button'' 21, demo_node ''Save draft'' ''button'' 22]"
  by (simp_all add: remaining_def demo_page_def demo_document_def demo_node_def)

lemma demo_save_head:
  "loop_head (demo_page c) ''save'' (Suc 0) =
     Some (Some ''toolbar'', ''Save draft'',
           [Accessibility_queryAXTree (ByObjectId ''save'') None None,
            DOM_getDocument 0,
            Accessibility_queryAXTree (ByBackendNodeId 1) (Some ''Save draft'') None,
            DOM_getDocument 0,
            Accessibility_queryAXTree (ByBackendNodeId 1) (Some ''Save draft'') (Some ''button''),
            Runtime_callFunctionOn Helper_getParent ''save''])"
proof -
  have "iteration (demo_page c) ''save'' [] [] =
     Continues (getParent_result (demo_page c) ''save'')
       (ax_name (demo_node ''Save draft'' ''button'' 20))
       ([] @ [Accessibility_queryAXTree (ByObjectId ''save'') None None,
            DOM_getDocument 0,
            Accessibility_queryAXTree (ByBackendNodeId (root_backendNodeId (demo_page c)))
              (Some (ax_name (demo_node ''Save draft'' ''button'' 20))) None,
            DOM_getDocument 0,
            Accessibility_queryAXTree (ByBackendNodeId (root_backendNodeId (demo_page c)))
              (Some (ax_name (demo_node ''Save draft'' ''button'' 20)))
              (Some (ax_role (demo_node ''Save draft'' ''button'' 20))),
            Runtime_callFunctionOn Helper_getParent ''save''])"
    by (rule iteration_continues [where others = "[]"])
      (simp_all add: demo_login_nodes demo_remaining [unfolded demo_node_def] demo_node_def)
  moreover have "getParent_result (demo_page c) ''save'' = Some ''toolbar''"
    "root_backendNodeId (demo_page c) = 1"
    by (simp_all add: demo_page_def)
  ultimately show ?thesis by (simp add: demo_node_def)
qed

lemma demo_selectors:
  "getSelector (demo_page c) ''go'' =
     Some (Str ''aria/Go'',
           [Accessibility_queryAXTree (ByObjectId ''go'') None None, DOM_getDocument 0,
            Accessibility_queryAXTree (ByBackendNodeId 1) (Some ''Go'') None])"
  "getSelector (demo_page c) ''field'' =
     Some (Null,
           [Accessibility_queryAXTree (ByObjectId ''field'') None None,
            Runtime_callFunctionOn Helper_cssPath ''field''])"
proof -
  have "iteration (demo_page c) ''go'' [] [] =
     Returns (''aria/'' @ ax_name (demo_node ''Go'' ''button'' 30))
       ([] @ [Accessibility_queryAXTree (ByObjectId ''go'') None None, DOM_getDocument 0,
              Accessibility_queryAXTree (ByBackendNodeId (root_backendNodeId (demo_page c)))
                (Some (ax_name (demo_node ''Go'' ''button'' 30))) None])"
    by (rule iteration_name [where others = "[]"])
      (simp_all add: demo_login_nodes demo_remaining [unfolded demo_node_def] demo_node_def)
  moreover have "root_backendNodeId (demo_page c) = 1" by (simp add: demo_page_def)
  ultimately show "getSelector (demo_page c) ''go'' =
     Some (Str ''aria/Go'',
           [Accessibility_queryAXTree (ByObjectId ''go'') None None, DOM_getDocument 0,
            Accessibility_queryAXTree (ByBackendNodeId 1) (Some ''Go'') None])"
    by (simp add: getSelector_first demo_node_def)
  have "cssPath_result (demo_page c) ''field'' = Null" by (simp add: demo_page_def)
  then show "getSelector (demo_page c) ''field'' =
     Some (Null,
           [Accessibility_queryAXTree (ByObjectId ''field'') None None,
            Runtime_callFunctionOn Helper_cssPath ''field''])"
    by (simp add: getSelector_first iteration_empty demo_login_nodes after_loop_def)
qed

lemma demo_frames:
  "getProperties (demo_page c) ''scope:go'' =
     [\<lparr>prop_name = ''this'',
       prop_value = Some \<lparr>className = Some ''Window'', ro_objectId = Some ''window''\<rparr>\<rparr>,
      \<lparr>prop_name = ''event'',
       prop_value = Some \<lparr>className = Some c, ro_objectId = Some ''event:go''\<rparr>\<rparr>]"
  "getProperties (demo_page c) ''scope:field'' =
     [\<lparr>prop_name = ''this'',
       prop_value = Some \<lparr>className = Some ''Window'', ro_objectId = Some ''window''\<rparr>\<rparr>,
      \<lparr>prop_name = ''event'',
       prop_value = Some \<lparr>className = Some c, ro_objectId = Some ''event:field''\<rparr>\<rparr>]"
  "getProperties (demo_page c) ''event:go'' =
     [\<lparr>prop_name = ''isTrusted'',
       prop_value = Some \<lparr>className = None, ro_objectId = None\<rparr>\<rparr>,
      \<lparr>prop_name = ''target'',
       prop_value = Some \<lparr>className = Some ''HTMLElement'', ro_objectId = Some ''go''\<rparr>\<rparr>]"
  "getProperties (demo_page c) ''event:field'' =
     [\<lparr>prop_name = ''isTrusted'',
       prop_value = Some \<lparr>className = None, ro_objectId = None\<rparr>\<rparr>,
      \<lparr>prop_name = ''target'',
       prop_value = Some \<lparr>className = Some ''HTMLElement'', ro_objectId = Some ''field''\<rparr>\<rparr>]"
  by (simp_all add: demo_page_def)

lemma demo_targets:
  "findTargetId (demo_page ''MouseEvent'') (getProperties (demo_page ''MouseEvent'') ''scope:go'')
     [''MouseEvent'', ''PointerEvent''] s =
     (Inr (Some ''go''), send (Runtime_getProperties ''event:go'') s)"
  "findTargetId (demo_page ''SubmitEvent'') (getProperties (demo_page ''SubmitEvent'') ''scope:go'')
     [''SubmitEvent''] s =
     (Inr (Some ''go''), send (Runtime_getProperties ''event:go'') s)"
  "findTargetId (demo_page ''Event'') (getProperties (demo_page ''Event'') ''scope:field'')
     [''Event''] s =
     (Inr (Some ''field''), send (Runtime_getProperties ''event:field'') s)"
  by (simp_all add: findTargetId_def demo_frames)



text \<open>
  Claim C3. Whenever the walk from a target reaches a node whose accessible name does not
  contain the name of the previous pass as a substring, the walk is abandoned: no
  uniqueness test is made at that node, and the resolver returns what the structural
  (CSS path) helper answers for the original target.
\<close>

theorem substring_guard:
  assumes "loop_head client objectId k = Some (Some cur, prevName, sent)" and "cur \<noteq> []"
    and "queryAXTree client (ByObjectId cur) None None = axNode # others"
    and "\<not> sublist prevName (ax_name axNode)"
  shows "getSelector client objectId =
           Some (cssPath_result client objectId,
                 sent @ [Accessibility_queryAXTree (ByObjectId cur) None None,
                         Runtime_callFunctionOn Helper_cssPath objectId])"
  using loop_at_head [OF assms(1,2)] iteration_guard [OF assms(3), of prevName sent] assms(4)
  by (simp add: includes_str_sublist after_loop_def)

theorem substring_guard_witness:
  "loop_head (demo_page ''MouseEvent'') ''save'' (Suc 0) =
     Some (Some ''toolbar'', ''Save draft'',
           [Accessibility_queryAXTree (ByObjectId ''save'') None None,
            DOM_getDocument 0,
            Accessibility_queryAXTree (ByBackendNodeId 1) (Some ''Save draft'') None,
            DOM_getDocument 0,
            Accessibility_queryAXTree (ByBackendNodeId 1) (Some ''Save draft'') (Some ''button''),
            Runtime_callFunctionOn Helper_getParent ''save''])
   \<and> ''toolbar'' \<noteq> []
   \<and> queryAXTree (demo_page ''MouseEvent'') (ByObjectId ''toolbar'') None None =
       demo_node ''Toolbar'' ''toolbar'' 19 #
         [demo_node ''Save draft'' ''button'' 20, demo_node ''Save draft'' ''button'' 21,
          demo_node ''Save draft'' ''button'' 22]
   \<and> \<not> sublist ''Save draft'' (ax_name (demo_node ''Toolbar'' ''toolbar'' 19))
   \<and> getSelector (demo_page ''MouseEvent'') ''save'' =
       Some (Str ''#save'',
             [Accessibility_queryAXTree (ByObjectId ''save'') None None,
              DOM_getDocument 0,
              Accessibility_queryAXTree (ByBackendNodeId 1) (Some ''Save draft'') None,
              DOM_getDocument 0,
              Accessibility_queryAXTree (ByBackendNodeId 1) (Some ''Save draft'') (Some ''button''),
              Runtime_callFunctionOn Helper_getParent ''save'',
              Accessibility_queryAXTree (ByObjectId ''toolbar'') None None,
              Runtime_callFunctionOn Helper_cssPath ''save''])"
proof -
  note h1 = demo_save_head [of "''MouseEvent''"]
  have h2: "''toolbar'' \<noteq> []" by simp
  note h3 = demo_login_nodes(4) [of "''MouseEvent''"]
  have h4: "\<not> sublist ''Save draft'' (ax_name (demo_node ''Toolbar'' ''toolbar'' 19))"
    by (simp add: includes_str_sublist [symmetric] demo_node_def)
  have "cssPath_result (demo_page ''MouseEvent'') ''save'' = Str ''#save''"
    by (simp add: demo_page_def)
  with substring_guard [OF h1 h2 h3 h4] h1 h2 h3 h4 show ?thesis by simp
qed

section \<open>The handlers of a pause\<close>

lemma findTargetId_found:
  "findTargetId client localFrame names s = (Inr r, s1) \<Longrightarrow>
     \<exists>eventId. s1 = s\<lparr>requests := requests s @ [Runtime_getProperties eventId]\<rparr>"
  unfolding findTargetId_def Let_def
  by (auto split: sum.splits option.splits simp: send_def)

lemma resume_requests:
  "resume s = s\<lparr>requests := requests s @
     [Debugger_setSkipAllPauses True, Debugger_resume, Debugger_setSkipAllPauses False]\<rparr>"
  by (simp add: resume_def skip_def send_def)

lemma skip_requests: "skip s = s\<lparr>requests := requests s @ [Debugger_resume]\<rparr>"
  by (simp add: skip_def send_def)

lemma click_submit_control_aux:
  assumes "findTargetId client localFrame [''MouseEvent'', ''PointerEvent''] s = (Inr (Some targetId), s1)"
    and "isSubmitButton_result client targetId"
  shows "handleClickEvent client options localFrame s =
           Done (s1\<lparr>requests := requests s1 @
             [Runtime_callFunctionOn Helper_isSubmitButton targetId, Debugger_resume]\<rparr>)"
  unfolding handleClickEvent_def assms(1) prod.case sum.case option.case isSubmitButton_def Let_def
  by (simp add: assms(2) send_all_def skip_requests)

lemma click_without_selector_aux:
  assumes "findTargetId client localFrame [''MouseEvent'', ''PointerEvent''] s = (Inr (Some targetId), s1)"
    and "\<not> isSubmitButton_result client targetId"
    and "getSelector client targetId = Some (selector, sent)"
    and "\<not> truthy selector"
  shows "handleClickEvent client options localFrame s =
           Done (s1\<lparr>requests := requests s1 @
                    Runtime_callFunctionOn Helper_isSubmitButton targetId # sent @
                    [Debugger_setSkipAllPauses True, Debugger_resume,
                     Debugger_setSkipAllPauses False],
                  console := console s1 @ [''failed to generate selector'']\<rparr>)"
  unfolding handleClickEvent_def assms(1) prod.case sum.case option.case isSubmitButton_def
    assms(3) Let_def
  apply (simp only: assms(2) assms(4) if_False and_then.simps)
  apply (simp only: resume_requests send_all_def console_log_def)
  apply simp
  done

lemma submit_emits_aux:
  assumes "findTargetId client localFrame [''SubmitEvent''] s = (Inr (Some targetId), s1)"
    and "getSelector client targetId = Some (Str selector, sent)"
    and "selector \<noteq> []" and "0 \<le> identation s1"
  shows "handleSubmitEvent client localFrame s =
           Done (s1\<lparr>requests := requests s1 @ sent @
                    [Debugger_setSkipAllPauses True, Debugger_resume,
                     Debugger_setSkipAllPauses False],
                  out := out s1 @
                    [indent (identation s1) (''await submit('' @ quote_string selector @ '');'')]\<rparr>)"
proof -
  have t: "truthy (Str selector)" using assms(3) by simp
  have i: "0 \<le> identation (send_all sent s1)" using assms(4) by (simp add: send_all_def)
  show ?thesis
    unfolding handleSubmitEvent_def assms(1) prod.case sum.case option.case assms(2) Let_def
    apply (simp only: t if_True addLine_nonneg [OF i] and_then.simps)
    apply (simp only: resume_requests send_all_def escapeSelector_def JSON_stringify.simps
        template.simps indent_def)
    apply simp
    done
qed

lemma submit_without_selector_aux:
  assumes "findTargetId client localFrame [''SubmitEvent''] s = (Inr (Some targetId), s1)"
    and "getSelector client targetId = Some (selector, sent)"
    and "\<not> truthy selector"
  shows "handleSubmitEvent client localFrame s =
           Done (s1\<lparr>requests := requests s1 @ sent @
                    [Debugger_setSkipAllPauses True, Debugger_resume,
                     Debugger_setSkipAllPauses False],
                  console := console s1 @ [''failed to generate selector'']\<rparr>)"
  unfolding handleSubmitEvent_def assms(1) prod.case sum.case option.case assms(2) Let_def
  apply (simp only: assms(3) if_False and_then.simps)
  apply (simp only: resume_requests send_all_def console_log_def)
  apply simp
  done

lemma change_emits_aux:
  assumes "findTargetId client localFrame [''Event''] s = (Inr (Some targetId), s1)"
    and "getSelector client targetId = Some (selector, sent)"
    and "0 \<le> identation s1"
  shows "handleChangeEvent client localFrame s =
           Done (s1\<lparr>requests := requests s1 @
                    Runtime_callFunctionOn Getter_value targetId # sent @
                    [Debugger_setSkipAllPauses True, Debugger_resume,
                     Debugger_setSkipAllPauses False],
                  out := out s1 @
                    [indent (identation s1)
                       (''await type('' @ template (JSON_stringify selector) @ '', ''
                          @ template (JSON_stringify (value_result client targetId)) @ '');'')]\<rparr>)"
proof -
  have i: "0 \<le> identation (send_all sent (send (Runtime_callFunctionOn Getter_value targetId) s1))"
    using assms(3) by (simp add: send_all_def send_def)
  show ?thesis
    unfolding handleChangeEvent_def assms(1) prod.case sum.case option.case assms(2) Let_def
    apply (simp only: addLine_nonneg [OF i] and_then.simps)
    apply (simp only: resume_requests send_all_def send_def escapeSelector_def indent_def)
    apply simp
    done
qed

lemma timeout_check:
  "timers s = (delay, prevScrollHeight) # rest \<Longrightarrow> 0 \<le> identation s \<Longrightarrow>
     on_timeout client s =
       Done (s\<lparr>timers := rest,
              requests := requests s @ [Runtime_evaluate ''document.scrollingElement.scrollHeight''],
              out := out s @
                (if prevScrollHeight < scrollHeight client
                 then [indent (identation s) ''await scrollToBottom();''] else []),
              scrollTimeout := False\<rparr>)"
  by (simp add: on_timeout_def scrollCheck_def send_def addLine_nonneg indent_def)

lemma on_paused_named:
  "on_paused client options \<lparr>data_eventName = Some eventName, scope_objectId = scope\<rparr> s =
     (let s1 = send (Runtime_getProperties scope) s; result = getProperties client scope in
      if eventName = Some ''listener:click'' then handleClickEvent client options result s1
      else if eventName = Some ''listener:submit'' then handleSubmitEvent client result s1
      else if eventName = Some ''listener:change'' then handleChangeEvent client result s1
      else if eventName = Some ''listener:scroll'' then handleScrollEvent client s1
      else Done (skip s1))"
  by (simp add: on_paused_def)

lemma paused_click_submit_control:
  assumes "findTargetId client (getProperties client scope) [''MouseEvent'', ''PointerEvent'']
             (send (Runtime_getProperties scope) s) = (Inr (Some targetId), s1)"
    and "isSubmitButton_result client targetId"
  shows "\<exists>eventId.
           on_paused client options
             \<lparr>data_eventName = Some (Some ''listener:click''), scope_objectId = scope\<rparr> s =
           Done (s\<lparr>requests := requests s @
                   [Runtime_getProperties scope, Runtime_getProperties eventId,
                    Runtime_callFunctionOn Helper_isSubmitButton targetId,
                    Debugger_resume]\<rparr>)"
proof -
  from findTargetId_found [OF assms(1)] obtain eventId where
    s1: "s1 = (send (Runtime_getProperties scope) s)
           \<lparr>requests := requests (send (Runtime_getProperties scope) s)
              @ [Runtime_getProperties eventId]\<rparr>"
    by (rule exE)
  have a: "on_paused client options
             \<lparr>data_eventName = Some (Some ''listener:click''), scope_objectId = scope\<rparr> s =
          handleClickEvent client options (getProperties client scope)
            (send (Runtime_getProperties scope) s)"
    by (simp add: on_paused_named)
  have b: "handleClickEvent client options (getProperties client scope)
            (send (Runtime_getProperties scope) s) =
          Done (s1\<lparr>requests := requests s1 @
             [Runtime_callFunctionOn Helper_isSubmitButton targetId, Debugger_resume]\<rparr>)"
    by (rule click_submit_control_aux [OF assms(1,2)])
  have c: "s1\<lparr>requests := requests s1 @
             [Runtime_callFunctionOn Helper_isSubmitButton targetId, Debugger_resume]\<rparr>
        = s\<lparr>requests := requests s @
                   [Runtime_getProperties scope, Runtime_getProperties eventId,
                    Runtime_callFunctionOn Helper_isSubmitButton targetId,
                    Debugger_resume]\<rparr>"
    by (simp add: s1 send_def)
  show ?thesis
    by (rule exI [of _ eventId]) (simp only: a b c)
qed

lemma paused_submit_emits:
  assumes "findTargetId client' (getProperties client' scope') [''SubmitEvent'']
             (send (Runtime_getProperties scope') t) = (Inr (Some targetId), t1)"
    and "getSelector client' targetId = Some (Str selector, sent)"
    and "selector \<noteq> []" and "0 \<le> identation t"
  shows "\<exists>eventId.
           on_paused client' options
             \<lparr>data_eventName = Some (Some ''listener:submit''), scope_objectId = scope'\<rparr> t =
           Done (t\<lparr>requests := requests t @
                   Runtime_getProperties scope' # Runtime_getProperties eventId # sent @
                   [Debugger_setSkipAllPauses True, Debugger_resume,
                    Debugger_setSkipAllPauses False],
                 out := out t @
                   [indent (identation t)
                      (''await submit('' @ quote_string selector @ '');'')]\<rparr>)"
proof -
  from findTargetId_found [OF assms(1)] obtain eventId where
    t1: "t1 = (send (Runtime_getProperties scope') t)
           \<lparr>requests := requests (send (Runtime_getProperties scope') t)
              @ [Runtime_getProperties eventId]\<rparr>"
    by (rule exE)
  have i: "0 \<le> identation t1" using assms(4) by (simp add: t1 send_def)
  have a: "on_paused client' options
             \<lparr>data_eventName = Some (Some ''listener:submit''), scope_objectId = scope'\<rparr> t =
          handleSubmitEvent client' (getProperties client' scope')
            (send (Runtime_getProperties scope') t)"
    by (simp add: on_paused_named)
  have b: "handleSubmitEvent client' (getProperties client' scope')
            (send (Runtime_getProperties scope') t) = Done (t1\<lparr>requests := requests t1 @ sent @
                    [Debugger_setSkipAllPauses True, Debugger_resume,
                     Debugger_setSkipAllPauses False],
                  out := out t1 @
                    [indent (identation t1) (''await submit('' @ quote_string selector @ '');'')]\<rparr>)"
    by (rule submit_emits_aux [OF assms(1,2,3) i])
  have c: "t1\<lparr>requests := requests t1 @ sent @
                    [Debugger_setSkipAllPauses True, Debugger_resume,
                     Debugger_setSkipAllPauses False],
                  out := out t1 @
                    [indent (identation t1) (''await submit('' @ quote_string selector @ '');'')]\<rparr>
       = t\<lparr>requests := requests t @
                   Runtime_getProperties scope' # Runtime_getProperties eventId # sent @
                   [Debugger_setSkipAllPauses True, Debugger_resume,
                    Debugger_setSkipAllPauses False],
                 out := out t @
                   [indent (identation t)
                      (''await submit('' @ quote_string selector @ '');'')]\<rparr>"
    by (simp add: t1 send_def)
  show ?thesis
    by (rule exI [of _ eventId]) (simp only: a b c)
qed

text \<open>
  Claim C4. A paused click event whose target is a submit-triggering control emits no
  line and ends the pause: the only requests are the two that read the event and its
  target, the call of the helper \<open>isSubmitButton\<close> and one \<open>Debugger.resume\<close>, so no
  accessibility query, no structural selector and no snapshot of the document is asked
  for, and nothing else of the state changes. The submit event on that control, once a
  selector is resolved, emits the line \<open>await submit(<selector>);\<close>.
\<close>

theorem click_on_submit_control:
  assumes "findTargetId client (getProperties client scope) [''MouseEvent'', ''PointerEvent'']
             (send (Runtime_getProperties scope) s) = (Inr (Some targetId), s1)"
    and "isSubmitButton_result client targetId"
    and "findTargetId client' (getProperties client' scope') [''SubmitEvent'']
             (send (Runtime_getProperties scope') t) = (Inr (Some targetId), t1)"
    and "getSelector client' targetId = Some (Str selector, sent)"
    and "selector \<noteq> []" and "0 \<le> identation t"
  shows "(\<exists>eventId.
           on_paused client options
             \<lparr>data_eventName = Some (Some ''listener:click''), scope_objectId = scope\<rparr> s =
           Done (s\<lparr>requests := requests s @
                   [Runtime_getProperties scope, Runtime_getProperties eventId,
                    Runtime_callFunctionOn Helper_isSubmitButton targetId,
                    Debugger_resume]\<rparr>))
    \<and> (\<exists>eventId.
           on_paused client' options
             \<lparr>data_eventName = Some (Some ''listener:submit''), scope_objectId = scope'\<rparr> t =
           Done (t\<lparr>requests := requests t @
                   Runtime_getProperties scope' # Runtime_getProperties eventId # sent @
                   [Debugger_setSkipAllPauses True, Debugger_resume,
                    Debugger_setSkipAllPauses False],
                 out := out t @
                   [indent (identation t)
                      (''await submit('' @ quote_string selector @ '');'')]\<rparr>))"
  by (rule conjI [OF paused_click_submit_control [OF assms(1,2)]
        paused_submit_emits [OF assms(3,4,5,6)]])

theorem click_on_submit_control_witness:
  "findTargetId (demo_page ''MouseEvent'') (getProperties (demo_page ''MouseEvent'') ''scope:go'')
       [''MouseEvent'', ''PointerEvent'']
       (send (Runtime_getProperties ''scope:go'') (started ''https://example.com'' [])) =
     (Inr (Some ''go''),
      send (Runtime_getProperties ''event:go'')
        (send (Runtime_getProperties ''scope:go'') (started ''https://example.com'' [])))
   \<and> isSubmitButton_result (demo_page ''MouseEvent'') ''go''
   \<and> findTargetId (demo_page ''SubmitEvent'') (getProperties (demo_page ''SubmitEvent'') ''scope:go'')
       [''SubmitEvent'']
       (send (Runtime_getProperties ''scope:go'') (started ''https://example.com'' [])) =
     (Inr (Some ''go''),
      send (Runtime_getProperties ''event:go'')
        (send (Runtime_getProperties ''scope:go'') (started ''https://example.com'' [])))
   \<and> getSelector (demo_page ''SubmitEvent'') ''go'' =
       Some (Str ''aria/Go'',
             [Accessibility_queryAXTree (ByObjectId ''go'') None None, DOM_getDocument 0,
              Accessibility_queryAXTree (ByBackendNodeId 1) (Some ''Go'') None])
   \<and> ''aria/Go'' \<noteq> []
   \<and> 0 \<le> identation (started ''https://example.com'' [])
   \<and> (\<exists>eventId.
         on_paused (demo_page ''MouseEvent'') demo_options
           \<lparr>data_eventName = Some (Some ''listener:click''), scope_objectId = ''scope:go''\<rparr>
           (started ''https://example.com'' []) =
         Done ((started ''https://example.com'' [])
                \<lparr>requests := requests (started ''https://example.com'' []) @
                   [Runtime_getProperties ''scope:go'', Runtime_getProperties eventId,
                    Runtime_callFunctionOn Helper_isSubmitButton ''go'', Debugger_resume]\<rparr>))
   \<and> (\<exists>eventId.
         on_paused (demo_page ''SubmitEvent'') demo_options
           \<lparr>data_eventName = Some (Some ''listener:submit''), scope_objectId = ''scope:go''\<rparr>
           (started ''https://example.com'' []) =
         Done ((started ''https://example.com'' [])
                \<lparr>requests := requests (started ''https://example.com'' []) @
                   Runtime_getProperties ''scope:go'' # Runtime_getProperties eventId #
                   [Accessibility_queryAXTree (ByObjectId ''go'') None None, DOM_getDocument 0,
                    Accessibility_queryAXTree (ByBackendNodeId 1) (Some ''Go'') None] @
                   [Debugger_setSkipAllPauses True, Debugger_resume,
                    Debugger_setSkipAllPauses False],
                 out := out (started ''https://example.com'' []) @
                   [indent (identation (started ''https://example.com'' []))
                      (''await submit('' @ quote_string ''aria/Go'' @ '');'')]\<rparr>))"
proof -
  note h1 = demo_targets(1) [of "send (Runtime_getProperties ''scope:go'') (started ''https://example.com'' [])"]
  have h2: "isSubmitButton_result (demo_page ''MouseEvent'') ''go''"
    by (simp add: demo_page_def)
  note h3 = demo_targets(2) [of "send (Runtime_getProperties ''scope:go'') (started ''https://example.com'' [])"]
  note h4 = demo_selectors(1) [of "''SubmitEvent''"]
  have h5: "''aria/Go'' \<noteq> []" by simp
  have h6: "0 \<le> identation (started ''https://example.com'' [])"
    by (simp add: started_fields)
  note c = click_on_submit_control [OF h1 h2 h3 h4 h5 h6, of demo_options]
  show ?thesis
    by (intro conjI h1 h2 h3 h4 h5 h6 conjunct1 [OF c] conjunct2 [OF c])
qed

text \<open>
  Claim C8, as stated, fails: a pause for a \<open>keydown\<close> listener is ended by the single
  request \<open>Debugger.resume\<close> of the skip operation, not by the resume operation, which
  sets and clears "skip all pauses" around it.
\<close>

theorem unrecognized_event_counterexample:
  "on_paused (demo_page ''KeyboardEvent'') demo_options
     (demo_pause ''listener:keydown'' ''field'') (started ''https://example.com'' []) =
     Done ((started ''https://example.com'' [])
            \<lparr>requests := [Page_goto ''https://example.com'',
                            Runtime_getProperties ''scope:field'', Debugger_resume]\<rparr>)
   \<and> on_paused (demo_page ''KeyboardEvent'') demo_options
       (demo_pause ''listener:keydown'' ''field'') (started ''https://example.com'' []) \<noteq>
     Done (resume (send (Runtime_getProperties ''scope:field'')
                     (started ''https://example.com'' [])))"
  by (simp add: on_paused_named demo_pause_def skip_requests resume_requests send_def
      started_def)

text \<open>
  Claim C8, amended. For every pause that carries event data whose event name is none of
  \<open>listener:click\<close>, \<open>listener:submit\<close>, \<open>listener:change\<close> and \<open>listener:scroll\<close>, the
  handler reads the local scope, emits nothing and ends the pause with the plain skip
  operation: one \<open>Debugger.resume\<close>, with no change of "skip all pauses".
\<close>

theorem unrecognized_event_skipped:
  assumes "eventName \<notin> {Some ''listener:click'', Some ''listener:submit'',
                          Some ''listener:change'', Some ''listener:scroll''}"
  shows "on_paused client options
           \<lparr>data_eventName = Some eventName, scope_objectId = scope\<rparr> s =
         Done (s\<lparr>requests := requests s @ [Runtime_getProperties scope, Debugger_resume]\<rparr>)"
  using assms by (simp add: on_paused_named skip_requests send_def)

theorem unrecognized_event_skipped_witness:
  "Some ''listener:keydown'' \<notin> {Some ''listener:click'', Some ''listener:submit'',
                                  Some ''listener:change'', Some ''listener:scroll''}
   \<and> on_paused (demo_page ''KeyboardEvent'') demo_options
         (demo_pause ''listener:keydown'' ''field'') (started ''https://example.com'' []) =
       Done ((started ''https://example.com'' [])
              \<lparr>requests := [Page_goto ''https://example.com'',
                              Runtime_getProperties ''scope:field'', Debugger_resume]\<rparr>)"
proof -
  have h: "Some ''listener:keydown'' \<notin> {Some ''listener:click'', Some ''listener:submit'',
                                  Some ''listener:change'', Some ''listener:scroll''}"
    by simp
  from unrecognized_event_skipped [OF h, of "demo_page ''KeyboardEvent''" demo_options
      "''scope:field''" "started ''https://example.com'' []"] h
  show ?thesis by (simp add: demo_pause_def started_def)
qed

text \<open>
  Claim C2 holds for click and submit events (\<open>click_without_selector_aux\<close>,
  \<open>submit_without_selector_aux\<close>: the failure is logged, nothing is emitted, the pause is
  resumed), and fails for change events, whose handler has no test of the selector. On the
  example page a change event on the text field, for which the resolver returns \<open>null\<close>,
  emits the line \<open>await type(null, "x");\<close> and logs nothing.
\<close>

theorem change_without_selector_emits:
  "getSelector (demo_page ''Event'') ''field'' =
     Some (Null,
           [Accessibility_queryAXTree (ByObjectId ''field'') None None,
            Runtime_callFunctionOn Helper_cssPath ''field''])
   \<and> on_paused (demo_page ''Event'') demo_options (demo_pause ''listener:change'' ''field'')
       (started ''https://example.com'' []) =
     Done ((started ''https://example.com'' [])
            \<lparr>requests :=
               [Page_goto ''https://example.com'',
                Runtime_getProperties ''scope:field'', Runtime_getProperties ''event:field'',
                Runtime_callFunctionOn Getter_value ''field'',
                Accessibility_queryAXTree (ByObjectId ''field'') None None,
                Runtime_callFunctionOn Helper_cssPath ''field'',
                Debugger_setSkipAllPauses True, Debugger_resume,
                Debugger_setSkipAllPauses False],
             out :=
               [indent 0 require_line, indent 0 (open_line ''https://example.com''),
                indent 1 (''await type(null, '' @ [CHR 0x22] @ ''x'' @ [CHR 0x22] @ '');'')],
             console := []\<rparr>)"
proof -
  let ?s1 = "send (Runtime_getProperties ''scope:field'') (started ''https://example.com'' [])"
  have i: "0 \<le> identation (send (Runtime_getProperties ''event:field'') ?s1)"
    by (simp add: send_def started_def)
  have v: "value_result (demo_page ''Event'') ''field'' = Str ''x''"
    by (simp add: demo_page_def)
  have a: "on_paused (demo_page ''Event'') demo_options (demo_pause ''listener:change'' ''field'')
       (started ''https://example.com'' []) =
     handleChangeEvent (demo_page ''Event'') (getProperties (demo_page ''Event'') ''scope:field'') ?s1"
    by (simp add: on_paused_named demo_pause_def)
  note b = change_emits_aux [OF demo_targets(3) demo_selectors(2) i]
  show ?thesis
    unfolding a b v
    by (simp add: demo_selectors send_def started_def indent_def quote_string_def
        quote_char_def)
qed

section \<open>What every handler keeps\<close>

lemma holds_after_and_then:
  "holds_after P oc \<Longrightarrow> (\<And>s1. P s1 \<Longrightarrow> holds_after P (k s1)) \<Longrightarrow> holds_after P (and_then oc k)"
  by (cases oc) auto

lemma holds_after_mono:
  "holds_after P oc \<Longrightarrow> (\<And>s. P s \<Longrightarrow> Q s) \<Longrightarrow> holds_after Q oc"
  by (cases oc) auto

lemma emits_refl: "emits s s"
  unfolding emits_def by (auto intro: exI [of _ "[]"])

lemma emits_trans: "emits s s1 \<Longrightarrow> emits s1 s2 \<Longrightarrow> emits s s2"
  unfolding emits_def
proof (elim conjE exE)
  fix ls ls'
  assume a: "identation s1 = identation s" "exited s1 = exited s"
    "identation s2 = identation s1" "exited s2 = exited s1"
    "out s1 = out s @ map (indent (identation s)) ls"
    "out s2 = out s1 @ map (indent (identation s1)) ls'"
  then have "out s2 = out s @ map (indent (identation s)) (ls @ ls')" by simp
  with a show "identation s2 = identation s \<and> exited s2 = exited s \<and>
    (\<exists>ls. out s2 = out s @ map (indent (identation s)) ls)" by metis
qed

lemma quiet_refl: "quiet s s"
  by (simp add: quiet_def emits_refl keeps_timers_def)

lemma quiet_trans: "quiet s s1 \<Longrightarrow> quiet s1 s2 \<Longrightarrow> quiet s s2"
  unfolding quiet_def keeps_timers_def by (auto intro: emits_trans)

lemma quiet_send: "quiet s (send c s)" "quiet s (send_all cs s)" "quiet s (console_log m s)"
  "quiet s (skip s)" "quiet s (resume s)"
  unfolding quiet_def keeps_timers_def emits_def send_def send_all_def console_log_def
    skip_def resume_def
  by (auto intro: exI [of _ "[]"])

lemma emits_addLine: "holds_after (emits s) (addLineToPuppeteerScript line s)"
proof (cases "0 \<le> identation s")
  case True
  then show ?thesis
    by (auto simp: addLine_nonneg emits_def indent_def intro: exI [of _ "[line]"])
next
  case False
  then show ?thesis by (simp add: addLine_neg emits_refl)
qed

lemma quiet_addLine: "holds_after (quiet s) (addLineToPuppeteerScript line s)"
proof (cases "0 \<le> identation s")
  case True
  then show ?thesis
    by (auto simp: addLine_nonneg quiet_def keeps_timers_def emits_def indent_def
        intro: exI [of _ "[line]"])
next
  case False
  then show ?thesis by (simp add: addLine_neg quiet_refl)
qed

lemma quiet_then: "quiet s s1 \<Longrightarrow> holds_after (quiet s1) oc \<Longrightarrow> holds_after (quiet s) oc"
  by (erule holds_after_mono) (rule quiet_trans)

lemma quiet_resume_after:
  "holds_after (quiet s) oc \<Longrightarrow> holds_after (quiet s) (and_then oc (\<lambda>s'. Done (resume s')))"
  by (cases oc) (auto intro: quiet_trans quiet_send)

lemma quiet_files: "quiet s (s\<lparr>files := f\<rparr>)"
  by (simp add: quiet_def keeps_timers_def emits_def)

lemma quiet_saveDom: "holds_after (quiet s) (saveDomIfNeeded client options s)"
proof (cases "saveDom options")
  case False
  then show ?thesis by (simp add: saveDomIfNeeded_def quiet_refl)
next
  case True
  define s2 where "s2 = send (DOM_getOuterHTML (root_nodeId client)) (send (DOM_getDocument (- 1)) s)"
  have q2: "quiet s s2"
    unfolding s2_def by (rule quiet_trans [OF quiet_send(1) quiet_send(1)])
  have "holds_after (quiet s)
     (addLineToPuppeteerScript l (s2\<lparr>files := f\<rparr>))" for l f
    by (rule quiet_then [OF quiet_trans [OF q2 quiet_files] quiet_addLine])
  with True show ?thesis
    by (simp add: saveDomIfNeeded_def Let_def s2_def split: option.splits)
qed

lemma findTargetId_sends:
  "findTargetId client localFrame names s = (r, s1) \<Longrightarrow> \<exists>cs. s1 = send_all cs s"
  unfolding findTargetId_def Let_def
  by (auto split: sum.splits option.splits simp: send_def send_all_def
      intro: exI [of _ "[]"])

lemma findTargetId_quiet:
  "findTargetId client localFrame names s = (r, s1) \<Longrightarrow> quiet s s1"
  by (auto dest!: findTargetId_sends simp: quiet_send)

lemma quietI:
  "quiet s s1 \<Longrightarrow> quiet s (send c s1)"
  "quiet s s1 \<Longrightarrow> quiet s (send_all cs s1)"
  "quiet s s1 \<Longrightarrow> quiet s (console_log m s1)"
  "quiet s s1 \<Longrightarrow> quiet s (skip s1)"
  "quiet s s1 \<Longrightarrow> quiet s (resume s1)"
  by (auto intro: quiet_trans quiet_send)

lemma quiet_emit:
  "quiet s s1 \<Longrightarrow> holds_after (quiet s) (addLineToPuppeteerScript l s1)"
  by (rule quiet_then [OF _ quiet_addLine])

lemma quiet_click: "holds_after (quiet s) (handleClickEvent client options localFrame s)"
proof -
  obtain r s1 where f: "findTargetId client localFrame [''MouseEvent'', ''PointerEvent''] s = (r, s1)"
    by (cases "findTargetId client localFrame [''MouseEvent'', ''PointerEvent''] s")
  then have q1: "quiet s s1" by (rule findTargetId_quiet)
  have save: "holds_after (quiet s)
      (and_then (saveDomIfNeeded client options (send_all c' (send_all c s1)))
         (addLineToPuppeteerScript l))" for c c' l
    by (rule holds_after_and_then [OF quiet_then [OF _ quiet_saveDom]])
      (auto intro: quietI q1 quiet_emit)
  show ?thesis
    unfolding handleClickEvent_def f
    by (auto simp: Let_def isSubmitButton_def split: sum.splits option.splits
        intro!: quiet_resume_after save quietI q1)
qed

lemma quiet_submit: "holds_after (quiet s) (handleSubmitEvent client localFrame s)"
proof -
  obtain r s1 where f: "findTargetId client localFrame [''SubmitEvent''] s = (r, s1)"
    by (cases "findTargetId client localFrame [''SubmitEvent''] s")
  then have q1: "quiet s s1" by (rule findTargetId_quiet)
  show ?thesis
    unfolding handleSubmitEvent_def f
    by (auto simp: Let_def split: sum.splits option.splits
        intro!: quiet_resume_after quiet_emit quietI q1)
qed

lemma quiet_change: "holds_after (quiet s) (handleChangeEvent client localFrame s)"
proof -
  obtain r s1 where f: "findTargetId client localFrame [''Event''] s = (r, s1)"
    by (cases "findTargetId client localFrame [''Event''] s")
  then have q1: "quiet s s1" by (rule findTargetId_quiet)
  show ?thesis
    unfolding handleChangeEvent_def f
    by (auto simp: Let_def split: sum.splits option.splits
        intro!: quiet_resume_after quiet_emit quietI q1)
qed

lemma quiet_framenavigated: "holds_after (quiet s) (on_framenavigated p u s)"
  by (auto simp: on_framenavigated_def quiet_refl intro!: quiet_emit)

lemma quiet_domcontentloaded: "holds_after (quiet s) (on_domcontentloaded s)"
  by (auto simp: on_domcontentloaded_def quiet_refl intro!: quietI)

lemma emits_scroll: "holds_after (emits s) (handleScrollEvent client s)"
  unfolding handleScrollEvent_def emits_def send_def skip_def resume_def Let_def
  by (auto intro: exI [of _ "[]"])

lemma emits_scrollCheck: "emits s s1 \<Longrightarrow> holds_after (emits s) (scrollCheck client h s1)"
proof -
  assume e: "emits s s1"
  have u: "emits s (s2\<lparr>scrollTimeout := False\<rparr>)" if "emits s s2" for s2
    using that by (simp add: emits_def)
  have e1: "emits s (send c s1)" for c
    using e by (simp add: emits_def send_def)
  have "holds_after (emits s) (addLineToPuppeteerScript l (send c s1))" for l c
    by (rule holds_after_mono [OF emits_addLine]) (rule emits_trans [OF e1])
  then show ?thesis
    unfolding scrollCheck_def Let_def
    by (auto intro!: holds_after_and_then u e1)
qed

lemma emits_timeout: "holds_after (emits s) (on_timeout client s)"
proof -
  have "emits s (s\<lparr>timers := r\<rparr>)" for r
    by (simp add: emits_def)
  then show ?thesis
    unfolding on_timeout_def
    by (auto split: list.splits simp: emits_refl intro!: emits_scrollCheck)
qed

lemma quiet_emits: "holds_after (quiet s) oc \<Longrightarrow> holds_after (emits s) oc"
  by (erule holds_after_mono) (simp add: quiet_def)

lemma emits_after_send:
  "holds_after (emits (send c s)) oc \<Longrightarrow> holds_after (emits s) oc"
proof (erule holds_after_mono)
  fix s' assume "emits (send c s) s'"
  moreover have "emits s (send c s)" using quiet_send(1) by (simp add: quiet_def)
  ultimately show "emits s s'" by (rule emits_trans [rotated])
qed

lemma emits_paused: "holds_after (emits s) (on_paused client options ev s)"
proof (cases "data_eventName ev")
  case None
  then show ?thesis by (simp add: on_paused_def emits_refl)
next
  case (Some eventName)
  let ?s1 = "send (Runtime_getProperties (scope_objectId ev)) s"
  let ?r = "getProperties client (scope_objectId ev)"
  have "holds_after (emits ?s1) (handleClickEvent client options ?r ?s1)"
    "holds_after (emits ?s1) (handleSubmitEvent client ?r ?s1)"
    "holds_after (emits ?s1) (handleChangeEvent client ?r ?s1)"
    "holds_after (emits ?s1) (handleScrollEvent client ?s1)"
    "holds_after (emits ?s1) (Done (skip ?s1))"
    using quiet_send(4) [of ?s1]
    by (simp_all add: quiet_emits quiet_click quiet_submit quiet_change emits_scroll quiet_def)
  then have "holds_after (emits ?s1) (on_paused client options ev s)"
    unfolding on_paused_def Let_def Some option.case by simp
  then show ?thesis by (rule emits_after_send)
qed

lemma emits_event:
  "\<not> is_finalization e \<Longrightarrow> holds_after (emits s) (on_event options e s)"
  by (cases e)
    (simp_all add: emits_paused emits_timeout quiet_emits quiet_framenavigated
      quiet_domcontentloaded)

lemma emits_rejection: "emits s s' \<Longrightarrow> emits s (s'\<lparr>rejections := r\<rparr>)"
  by (simp add: emits_def)

section \<open>Runs\<close>

lemma run_emits:
  "\<forall>e \<in> set evs. \<not> is_finalization e \<Longrightarrow> run options evs s = Some s' \<Longrightarrow> emits s s'"
proof (induction evs arbitrary: s)
  case Nil
  then show ?case by (simp add: emits_refl)
next
  case (Cons e evs)
  show ?case
  proof (cases "exited s")
    case True
    with Cons.prems show ?thesis by (simp add: emits_refl)
  next
    case False
    have h: "holds_after (emits s) (on_event options e s)"
      using Cons.prems(1) by (simp add: emits_event)
    show ?thesis
    proof (cases "on_event options e s")
      case (Done s1)
      with h Cons.prems False have "emits s s1" "run options evs s1 = Some s'" by simp_all
      with Cons.IH [of s1] Cons.prems(1) show ?thesis by (auto intro: emits_trans)
    next
      case (Threw err s1)
      let ?s2 = "s1\<lparr>rejections := rejections s1 @ [err]\<rparr>"
      from Threw h Cons.prems False have "emits s ?s2" "run options evs ?s2 = Some s'"
        by (simp_all add: emits_rejection)
      with Cons.IH [of ?s2] Cons.prems(1) show ?thesis by (auto intro: emits_trans)
    next
      case Diverged
      with Cons.prems False show ?thesis by simp
    qed
  qed
qed

lemma run_exited: "exited s \<Longrightarrow> run options evs s = Some s"
  by (cases evs) simp_all

lemma run_append:
  "run options (xs @ ys) s = (case run options xs s of None \<Rightarrow> None | Some s1 \<Rightarrow> run options ys s1)"
  by (induction xs arbitrary: s) (auto simp: run_exited split: outcome.splits)

lemma run_finalizations_closed:
  "identation s \<le> 0 \<Longrightarrow> \<forall>e \<in> set ts. is_finalization e \<Longrightarrow>
     \<exists>s'. run options ts s = Some s' \<and> out s' = out s"
proof (induction ts arbitrary: s)
  case Nil
  then show ?case by simp
next
  case (Cons t ts)
  let ?s1 = "s\<lparr>identation := identation s - 1\<rparr>"
  have c: "close options s = Threw RangeError ?s1"
    using Cons.prems(1) by (rule close_closed)
  have o: "on_event options t s = Threw RangeError ?s1"
    using Cons.prems(2) c by (cases t) (simp_all add: on_sigint_def)
  let ?s2 = "?s1\<lparr>rejections := rejections ?s1 @ [RangeError]\<rparr>"
  have "identation ?s2 \<le> 0" using Cons.prems(1) by simp
  from Cons.IH [OF this] Cons.prems(2) obtain s' where
    "run options ts ?s2 = Some s'" "out s' = out ?s2" by auto
  then show ?case using o by (cases "exited s") auto
qed

lemma run_finalizations_open:
  assumes "identation s = 1" "\<not> exited s" "ts \<noteq> []" "\<forall>e \<in> set ts. is_finalization e"
  shows "\<exists>s'. run options ts s = Some s' \<and> out s' = out s @ [indent 0 ''});'', EOF]"
proof -
  from assms(3) obtain t ts' where ts: "ts = t # ts'" by (cases ts) auto
  define s1 where "s1 = (if wsEndpoint options = None \<or> wsEndpoint options = Some [] then send Browser_close else id)
          (s\<lparr>identation := 0, out := out s @ [Data (''});'' @ [CHR 0x0A]), EOF]\<rparr>)"
  have c: "close options s = Done s1"
    unfolding s1_def using assms(1) by (rule close_open)
  have s1: "identation s1 = 0" "out s1 = out s @ [indent 0 ''});'', EOF]"
    by (simp_all add: s1_def send_def indent_def)
  have "\<exists>s2. on_event options t s = Done s2 \<and> identation s2 \<le> 0 \<and> out s2 = out s1"
    using assms(4) c s1 unfolding ts
    by (cases t) (simp_all add: on_sigint_def send_def)
  then obtain s2 where s2: "on_event options t s = Done s2" "identation s2 \<le> 0" "out s2 = out s1"
    by blast
  from run_finalizations_closed [OF s2(2), of ts' options] assms(4) ts
  obtain s' where "run options ts' s2 = Some s'" "out s' = out s2" by auto
  then show ?thesis using s2 s1 assms(2) ts by simp
qed

lemma run_one_finalization:
  assumes "identation s = 1" "\<not> exited s" "is_finalization t"
  shows "\<exists>r. run options [t] s = Some r \<and> identation r = 0
           \<and> out r = out s @ [indent 0 ''});'', EOF]"
proof -
  define s1 where "s1 = (if wsEndpoint options = None \<or> wsEndpoint options = Some [] then send Browser_close else id)
          (s\<lparr>identation := 0, out := out s @ [Data (''});'' @ [CHR 0x0A]), EOF]\<rparr>)"
  have c: "close options s = Done s1"
    unfolding s1_def using assms(1) by (rule close_open)
  have s1: "identation s1 = 0" "out s1 = out s @ [indent 0 ''});'', EOF]"
    by (simp_all add: s1_def send_def indent_def)
  show ?thesis
    using assms(2,3) c s1 by (cases t) (simp_all add: on_sigint_def send_def)
qed

lemma not_closing_line:
  "indent 0 ''});'' \<noteq> indent 0 require_line"
  "indent 0 ''});'' \<noteq> indent 0 (open_line u)"
  "indent 0 ''});'' \<notin> set (map (indent 1) ls)"
  by (auto simp: indent_def require_line_def open_line_def)

lemma not_EOF: "EOF \<noteq> indent d l" "EOF \<notin> set (map (indent d) ls)"
  by (auto simp: indent_def)

lemma recording_state:
  assumes "\<forall>e \<in> set evs. \<not> is_finalization e" and "session url fs options evs = Some s"
  shows "identation s = 1 \<and> \<not> exited s
     \<and> (\<exists>ls. out s =
           [indent 0 require_line,
            indent 0 (open_line (if prefix ''http'' url then url else ''https://'' @ url))]
           @ map (indent 1) ls)"
proof -
  let ?s0 = "started (if prefix ''http'' url then url else ''https://'' @ url) fs"
  have "run options evs ?s0 = Some s" using assms(2) by (simp add: session_run)
  with assms(1) have "emits ?s0 s" by (rule run_emits)
  then show ?thesis by (simp add: emits_def started_fields)
qed

section \<open>The scroll check\<close>

lemma timer_inv_kept: "timer_inv s \<Longrightarrow> keeps_timers s s' \<Longrightarrow> timer_inv s'"
  by (simp add: timer_inv_def keeps_timers_def)

lemma timer_inv_quiet:
  assumes "timer_inv s" and "holds_after (quiet s) oc"
  shows "holds_after timer_inv oc"
proof (rule holds_after_mono [OF assms(2)])
  fix s' assume "quiet s s'"
  with assms(1) show "timer_inv s'" by (simp add: quiet_def timer_inv_kept)
qed

lemma timer_inv_send: "timer_inv s \<Longrightarrow> timer_inv (send c s)"
  by (simp add: timer_inv_def send_def)

lemma timer_inv_scroll: "timer_inv s \<Longrightarrow> holds_after timer_inv (handleScrollEvent client s)"
  by (cases "timers s")
    (auto simp: handleScrollEvent_def timer_inv_def resume_requests send_def Let_def)

lemma no_timers_scrollCheck:
  assumes "timers s = []"
  shows "holds_after (\<lambda>s'. timers s' = []) (scrollCheck client h s)"
proof -
  let ?s1 = "send (Runtime_evaluate ''document.scrollingElement.scrollHeight'') s"
  have e: "timers ?s1 = []" using assms by (simp add: send_def)
  have a: "holds_after (\<lambda>s'. timers s' = []) (addLineToPuppeteerScript l ?s1)" for l
    using e by (cases "0 \<le> identation ?s1") (simp_all add: addLine_nonneg addLine_neg)
  have "holds_after (\<lambda>s'. timers s' = [])
     (if h < scrollHeight client
      then addLineToPuppeteerScript ''await scrollToBottom();'' ?s1 else Done ?s1)"
    using a e by simp
  then show ?thesis
    unfolding scrollCheck_def Let_def
    by (rule holds_after_and_then) simp
qed

lemma timer_inv_timeout: "timer_inv s \<Longrightarrow> holds_after timer_inv (on_timeout client s)"
proof (cases "timers s")
  case Nil
  then show "timer_inv s \<Longrightarrow> ?thesis" by (simp add: on_timeout_def)
next
  case (Cons t rest)
  assume "timer_inv s"
  with Cons have rest: "rest = []" by (simp add: timer_inv_def)
  obtain delay h where t: "t = (delay, h)" by (cases t)
  have "holds_after (\<lambda>s'. timers s' = []) (scrollCheck client h (s\<lparr>timers := []\<rparr>))"
    by (rule no_timers_scrollCheck) simp
  then have "holds_after timer_inv (scrollCheck client h (s\<lparr>timers := []\<rparr>))"
    by (rule holds_after_mono) (simp add: timer_inv_def)
  then show ?thesis by (simp add: on_timeout_def Cons t rest)
qed

lemma timer_inv_paused:
  assumes "timer_inv s"
  shows "holds_after timer_inv (on_paused client options ev s)"
proof (cases "data_eventName ev")
  case None
  then show ?thesis using assms by (simp add: on_paused_def)
next
  case (Some eventName)
  let ?s1 = "send (Runtime_getProperties (scope_objectId ev)) s"
  let ?r = "getProperties client (scope_objectId ev)"
  have i: "timer_inv ?s1" using assms by (rule timer_inv_send)
  have "holds_after timer_inv (handleClickEvent client options ?r ?s1)"
    "holds_after timer_inv (handleSubmitEvent client ?r ?s1)"
    "holds_after timer_inv (handleChangeEvent client ?r ?s1)"
    "holds_after timer_inv (handleScrollEvent client ?s1)"
    "holds_after timer_inv (Done (skip ?s1))"
    using i
    by (simp_all add: timer_inv_quiet [OF i quiet_click] timer_inv_quiet [OF i quiet_submit]
        timer_inv_quiet [OF i quiet_change] timer_inv_scroll
        timer_inv_kept [OF i] quiet_send(4) [unfolded quiet_def])
  then show ?thesis
    unfolding on_paused_def Let_def Some option.case by simp
qed

lemma timer_inv_close: "timer_inv s \<Longrightarrow> holds_after timer_inv (close options s)"
  by (cases "0 \<le> identation s - 1")
    (auto simp: close_def addLine_nonneg addLine_neg Let_def timer_inv_def send_def)

lemma timer_inv_sigint: "timer_inv s \<Longrightarrow> holds_after timer_inv (on_sigint options s)"
  by (cases "0 \<le> identation s - 1")
    (auto simp: on_sigint_def close_def addLine_nonneg addLine_neg Let_def timer_inv_def send_def)

lemma timer_inv_event:
  assumes "timer_inv s"
  shows "holds_after timer_inv (on_event options e s)"
  using assms
  by (cases e)
    (simp_all add: timer_inv_paused timer_inv_timeout timer_inv_close timer_inv_sigint
      timer_inv_quiet [OF assms quiet_framenavigated]
      timer_inv_quiet [OF assms quiet_domcontentloaded])

lemma timer_inv_run:
  "timer_inv s \<Longrightarrow> run options evs s = Some s' \<Longrightarrow> timer_inv s'"
proof (induction evs arbitrary: s)
  case Nil
  then show ?case by simp
next
  case (Cons e evs)
  show ?case
  proof (cases "exited s")
    case True
    with Cons.prems show ?thesis by simp
  next
    case False
    have h: "holds_after timer_inv (on_event options e s)"
      using Cons.prems(1) by (rule timer_inv_event)
    show ?thesis
    proof (cases "on_event options e s")
      case (Done s1)
      with h Cons.prems False have "timer_inv s1" "run options evs s1 = Some s'" by simp_all
      then show ?thesis by (rule Cons.IH)
    next
      case (Threw err s1)
      let ?s2 = "s1\<lparr>rejections := rejections s1 @ [err]\<rparr>"
      from Threw h Cons.prems False have "timer_inv ?s2" "run options evs ?s2 = Some s'"
        by (simp_all add: timer_inv_def)
      then show ?thesis by (rule Cons.IH)
    next
      case Diverged
      with Cons.prems False show ?thesis by simp
    qed
  qed
qed

lemma timer_inv_session:
  assumes "session url fs options evs = Some s"
  shows "timer_inv s"
proof -
  let ?s0 = "started (if prefix ''http'' url then url else ''https://'' @ url) fs"
  have "timer_inv ?s0" by (simp add: timer_inv_def started_def)
  moreover have "run options evs ?s0 = Some s" using assms by (simp add: session_run)
  ultimately show ?thesis by (rule timer_inv_run)
qed

lemma scroll_handler:
  "handleScrollEvent client s =
     Done (if scrollTimeout s
           then s\<lparr>requests := requests s @
                    [Debugger_setSkipAllPauses True, Debugger_resume,
                     Debugger_setSkipAllPauses False]\<rparr>
           else s\<lparr>requests := requests s @
                    [Runtime_evaluate ''document.scrollingElement.scrollHeight'',
                     Debugger_setSkipAllPauses True, Debugger_resume,
                     Debugger_setSkipAllPauses False],
                  scrollTimeout := True,
                  timers := timers s @ [(1000, scrollHeight client)]\<rparr>)"
  by (simp add: handleScrollEvent_def resume_requests send_def)

text \<open>
  Claim C6. In every state a session reaches there is at most one scroll check
  outstanding, it was started with a delay of 1000 milliseconds, and \<open>scrollTimeout\<close> is
  set while it is outstanding. A scroll event that finds no check outstanding measures
  the scroll height, starts the check and resumes; one that finds a check outstanding
  only resumes, with no measurement, no new check and no line. When the check fires, the
  height is measured again and the line \<open>await scrollToBottom();\<close> is emitted once if
  the height has grown and not at all otherwise, and \<open>scrollTimeout\<close> is cleared.
\<close>

theorem scroll_debounce:
  "(session url fs options evs = Some r \<longrightarrow>
      length (timers r) \<le> 1 \<and> (timers r \<noteq> [] \<longrightarrow> scrollTimeout r)
      \<and> (\<forall>t \<in> set (timers r). fst t = 1000))
   \<and> handleScrollEvent client s =
       Done (if scrollTimeout s
             then s\<lparr>requests := requests s @
                      [Debugger_setSkipAllPauses True, Debugger_resume,
                       Debugger_setSkipAllPauses False]\<rparr>
             else s\<lparr>requests := requests s @
                      [Runtime_evaluate ''document.scrollingElement.scrollHeight'',
                       Debugger_setSkipAllPauses True, Debugger_resume,
                       Debugger_setSkipAllPauses False],
                    scrollTimeout := True,
                    timers := timers s @ [(1000, scrollHeight client)]\<rparr>)
   \<and> (timers s = (delay, prevScrollHeight) # rest \<and> 0 \<le> identation s \<longrightarrow>
        on_timeout client s =
          Done (s\<lparr>timers := rest,
                 requests := requests s @
                   [Runtime_evaluate ''document.scrollingElement.scrollHeight''],
                 out := out s @
                   (if prevScrollHeight < scrollHeight client
                    then [indent (identation s) ''await scrollToBottom();''] else []),
                 scrollTimeout := False\<rparr>))"
proof -
  have a: "session url fs options evs = Some r \<longrightarrow>
      length (timers r) \<le> 1 \<and> (timers r \<noteq> [] \<longrightarrow> scrollTimeout r)
      \<and> (\<forall>t \<in> set (timers r). fst t = 1000)"
  proof
    assume "session url fs options evs = Some r"
    then have "timer_inv r" by (rule timer_inv_session)
    then show "length (timers r) \<le> 1 \<and> (timers r \<noteq> [] \<longrightarrow> scrollTimeout r)
      \<and> (\<forall>t \<in> set (timers r). fst t = 1000)"
      by (simp add: timer_inv_def)
  qed
  have c: "timers s = (delay, prevScrollHeight) # rest \<and> 0 \<le> identation s \<longrightarrow>
        on_timeout client s =
          Done (s\<lparr>timers := rest,
                 requests := requests s @
                   [Runtime_evaluate ''document.scrollingElement.scrollHeight''],
                 out := out s @
                   (if prevScrollHeight < scrollHeight client
                    then [indent (identation s) ''await scrollToBottom();''] else []),
                 scrollTimeout := False\<rparr>)"
    by (simp add: timeout_check)
  show ?thesis
    by (rule conjI [OF a conjI [OF scroll_handler c]])
qed

lemma demo_scroll_session:
  "session ''example.com'' [] demo_options
     [Paused (demo_page ''Event'') (demo_pause ''listener:scroll'' ''field''),
      Paused (demo_page ''Event'') (demo_pause ''listener:scroll'' ''field'')] =
   Some (demo_scrolled
          \<lparr>requests := requests demo_scrolled @
             [Runtime_getProperties ''scope:field'', Debugger_setSkipAllPauses True,
              Debugger_resume, Debugger_setSkipAllPauses False]\<rparr>)"
  by (simp add: session_run on_paused_named demo_pause_def scroll_handler send_def
      started_def demo_scrolled_def demo_page_def)

theorem scroll_debounce_witness:
  "session ''example.com'' [] demo_options
     [Paused (demo_page ''Event'') (demo_pause ''listener:scroll'' ''field''),
      Paused (demo_page ''Event'') (demo_pause ''listener:scroll'' ''field'')] =
   Some (demo_scrolled
          \<lparr>requests := requests demo_scrolled @
             [Runtime_getProperties ''scope:field'', Debugger_setSkipAllPauses True,
              Debugger_resume, Debugger_setSkipAllPauses False]\<rparr>)
   \<and> timers demo_scrolled = (1000, 900) # []
   \<and> 0 \<le> identation demo_scrolled
   \<and> on_timeout ((demo_page ''Event'')\<lparr>scrollHeight := 1200\<rparr>) demo_scrolled =
       Done (demo_scrolled
              \<lparr>timers := [],
               requests := requests demo_scrolled @
                 [Runtime_evaluate ''document.scrollingElement.scrollHeight''],
               out := out demo_scrolled @ [indent 1 ''await scrollToBottom();''],
               scrollTimeout := False\<rparr>)
   \<and> on_timeout (demo_page ''Event'') demo_scrolled =
       Done (demo_scrolled
              \<lparr>timers := [],
               requests := requests demo_scrolled @
                 [Runtime_evaluate ''document.scrollingElement.scrollHeight''],
               scrollTimeout := False\<rparr>)
   \<and> handleScrollEvent (demo_page ''Event'') demo_scrolled =
       Done (demo_scrolled
              \<lparr>requests := requests demo_scrolled @
                 [Debugger_setSkipAllPauses True, Debugger_resume,
                  Debugger_setSkipAllPauses False]\<rparr>)
   \<and> length (timers (demo_scrolled
          \<lparr>requests := requests demo_scrolled @
             [Runtime_getProperties ''scope:field'', Debugger_setSkipAllPauses True,
              Debugger_resume, Debugger_setSkipAllPauses False]\<rparr>)) \<le> 1"
proof -
  have h: "timers demo_scrolled = (1000, 900) # []" "0 \<le> identation demo_scrolled"
    "scrollTimeout demo_scrolled" "identation demo_scrolled = 1"
    by (simp_all add: demo_scrolled_def started_def)
  have g: "scrollHeight ((demo_page ''Event'')\<lparr>scrollHeight := 1200\<rparr>) = 1200"
    "scrollHeight (demo_page ''Event'') = 900"
    by (simp_all add: demo_page_def)
  note a = scroll_debounce [where url = "''example.com''" and fs = "[]"
      and options = demo_options
      and evs = "[Paused (demo_page ''Event'') (demo_pause ''listener:scroll'' ''field''),
                  Paused (demo_page ''Event'') (demo_pause ''listener:scroll'' ''field'')]"
      and s = demo_scrolled and delay = 1000 and prevScrollHeight = 900 and rest = "[]"]
  note b = a [where client = "(demo_page ''Event'')\<lparr>scrollHeight := 1200\<rparr>"]
  note c = a [where client = "demo_page ''Event''"]
  have 1: "length (timers (demo_scrolled
          \<lparr>requests := requests demo_scrolled @
             [Runtime_getProperties ''scope:field'', Debugger_setSkipAllPauses True,
              Debugger_resume, Debugger_setSkipAllPauses False]\<rparr>)) \<le> 1"
    using b [THEN conjunct1, rule_format, OF demo_scroll_session] by simp
  have 2: "on_timeout ((demo_page ''Event'')\<lparr>scrollHeight := 1200\<rparr>) demo_scrolled =
       Done (demo_scrolled
              \<lparr>timers := [],
               requests := requests demo_scrolled @
                 [Runtime_evaluate ''document.scrollingElement.scrollHeight''],
               out := out demo_scrolled @ [indent 1 ''await scrollToBottom();''],
               scrollTimeout := False\<rparr>)"
    using b [THEN conjunct2, THEN conjunct2, rule_format, OF conjI [OF h(1,2)]]
    by (simp add: g h(4))
  have 3: "on_timeout (demo_page ''Event'') demo_scrolled =
       Done (demo_scrolled
              \<lparr>timers := [],
               requests := requests demo_scrolled @
                 [Runtime_evaluate ''document.scrollingElement.scrollHeight''],
               scrollTimeout := False\<rparr>)"
    using c [THEN conjunct2, THEN conjunct2, rule_format, OF conjI [OF h(1,2)]]
    by (simp add: g)
  have 4: "handleScrollEvent (demo_page ''Event'') demo_scrolled =
       Done (demo_scrolled
              \<lparr>requests := requests demo_scrolled @
                 [Debugger_setSkipAllPauses True, Debugger_resume,
                  Debugger_setSkipAllPauses False]\<rparr>)"
    using c [THEN conjunct2, THEN conjunct1] by (simp add: h(3))
  show ?thesis
    by (intro conjI demo_scroll_session h(1) h(2) 1 2 3 4)
qed

section \<open>The script skeleton\<close>

text \<open>
  Claim C10. A url that does not start with the four characters \<open>http\<close> is opened and
  recorded with \<open>https://\<close> put in front of it; a url that starts with \<open>http\<close>, such as
  \<open>httpfoo\<close>, is used as it is. The exported function returns in the state that holds the
  request to open that address and the two opening lines, the second being
  \<open>open('<address>', {}, async (page) => {\<close> with that address between the quotes.
\<close>

theorem url_completed:
  "start url fs =
     Done \<lparr>identation = 1,
           out = [Data (''const {open, click, type, submit, expect, scrollToBottom} = require(''
                          @ [CHR 0x27] @ ''@puppeteer/recorder'' @ [CHR 0x27] @ '');''
                          @ [CHR 0x0A]),
                  Data (''open('' @ [CHR 0x27]
                          @ (if prefix ''http'' url then url else ''https://'' @ url)
                          @ [CHR 0x27] @ '', {}, async (page) => {'' @ [CHR 0x0A])],
           console = [],
           requests = [Page_goto (if prefix ''http'' url then url else ''https://'' @ url)],
           scrollTimeout = False, timers = [], files = fs, exited = False,
           rejections = []\<rparr>"
  by (simp add: start_eq started_def require_line_def open_line_def)

theorem url_completed_witness:
  "\<not> prefix ''http'' ''example.com''
   \<and> start ''example.com'' [] =
       Done \<lparr>identation = 1,
             out = [Data (''const {open, click, type, submit, expect, scrollToBottom} = require(''
                            @ [CHR 0x27] @ ''@puppeteer/recorder'' @ [CHR 0x27] @ '');''
                            @ [CHR 0x0A]),
                    Data (''open('' @ [CHR 0x27] @ ''https://example.com''
                            @ [CHR 0x27] @ '', {}, async (page) => {'' @ [CHR 0x0A])],
             console = [], requests = [Page_goto ''https://example.com''],
             scrollTimeout = False, timers = [], files = [], exited = False,
             rejections = []\<rparr>
   \<and> prefix ''http'' ''httpfoo''
   \<and> start ''httpfoo'' [] =
       Done \<lparr>identation = 1,
             out = [Data (''const {open, click, type, submit, expect, scrollToBottom} = require(''
                            @ [CHR 0x27] @ ''@puppeteer/recorder'' @ [CHR 0x27] @ '');''
                            @ [CHR 0x0A]),
                    Data (''open('' @ [CHR 0x27] @ ''httpfoo''
                            @ [CHR 0x27] @ '', {}, async (page) => {'' @ [CHR 0x0A])],
             console = [], requests = [Page_goto ''httpfoo''],
             scrollTimeout = False, timers = [], files = [], exited = False,
             rejections = []\<rparr>"
  using url_completed [of "''example.com''" "[]"] url_completed [of "''httpfoo''" "[]"]
  by simp

text \<open>The example session: one navigation of the main frame, then the page is closed.\<close>

lemma demo_navigated:
  "session ''example.com'' [] demo_options [FrameNavigated False ''https://example.com/''] =
     Some ((started ''https://example.com'' [])
            \<lparr>out := [indent 0 require_line, indent 0 (open_line ''https://example.com''),
                     indent 1 (''expect(page.url()).resolves.toBe(''
                                 @ quote_string ''https://example.com/'' @ '');'')]\<rparr>)"
  by (simp add: session_run on_framenavigated_def addLine_nonneg started_fields
      escapeSelector_def indent_def)

lemma demo_completed:
  "session ''example.com'' [] demo_options
     [FrameNavigated False ''https://example.com/'', PageClose] =
     Some ((started ''https://example.com'' [])
            \<lparr>identation := 0,
             out := [indent 0 require_line, indent 0 (open_line ''https://example.com''),
                     indent 1 (''expect(page.url()).resolves.toBe(''
                                 @ quote_string ''https://example.com/'' @ '');''),
                     indent 0 ''});'', EOF]\<rparr>)"
  by (simp add: session_run on_framenavigated_def addLine_nonneg started_fields
      escapeSelector_def indent_def close_def Let_def demo_options_def)

text \<open>
  Claim C9. After any recording (events none of which is a finalization trigger), every
  non-empty sequence of page close events and interrupts, in any order and multiplicity,
  ends with the end-of-stream marker pushed exactly once, immediately after the closing
  line of the skeleton, which is pushed exactly once too.
\<close>

theorem end_of_stream_once:
  assumes "\<forall>e \<in> set evs. \<not> is_finalization e" and "session url fs options evs = Some s"
    and "ts \<noteq> []" and "\<forall>t \<in> set ts. is_finalization t"
  shows "\<exists>r. session url fs options (evs @ ts) = Some r
           \<and> out r = out s @ [indent 0 ''});'', EOF]
           \<and> count_list (out r) EOF = 1
           \<and> count_list (out r) (indent 0 ''});'') = 1"
proof -
  let ?s0 = "started (if prefix ''http'' url then url else ''https://'' @ url) fs"
  from recording_state [OF assms(1,2)] obtain ls where
    s: "identation s = 1" "\<not> exited s"
      "out s = [indent 0 require_line,
            indent 0 (open_line (if prefix ''http'' url then url else ''https://'' @ url))]
           @ map (indent 1) ls"
    by blast
  from run_finalizations_open [OF s(1,2) assms(3,4), of options] obtain r where
    r: "run options ts s = Some r" "out r = out s @ [indent 0 ''});'', EOF]" by blast
  have "run options evs ?s0 = Some s" using assms(2) by (simp add: session_run)
  then have "session url fs options (evs @ ts) = Some r"
    using r(1) by (simp add: session_run run_append)
  moreover have "EOF \<notin> set (out s)" "indent 0 ''});'' \<notin> set (out s)"
    unfolding s(3) using not_closing_line(3) [of ls] not_EOF(2) [of 1 ls]
    by (simp_all add: not_closing_line(1,2) not_EOF(1))
  then have "count_list (out r) EOF = 1" "count_list (out r) (indent 0 ''});'') = 1"
    using not_EOF(1) [of 0 "''});''"] by (simp_all add: r(2) count_list_0_iff)
  ultimately show ?thesis using r(2) by blast
qed

theorem end_of_stream_once_witness:
  "list_all (\<lambda>e. \<not> is_finalization e) [FrameNavigated False ''https://example.com/'']
   \<and> [PageClose, SIGINT, PageClose] \<noteq> []
   \<and> list_all is_finalization [PageClose, SIGINT, PageClose]
   \<and> map_option out
        (session ''example.com'' [] demo_options [FrameNavigated False ''https://example.com/'']) =
       Some [indent 0 require_line, indent 0 (open_line ''https://example.com''),
             indent 1 (''expect(page.url()).resolves.toBe(''
                         @ quote_string ''https://example.com/'' @ '');'')]
   \<and> map_option out
        (session ''example.com'' [] demo_options
           ([FrameNavigated False ''https://example.com/''] @ [PageClose, SIGINT, PageClose])) =
       Some [indent 0 require_line, indent 0 (open_line ''https://example.com''),
             indent 1 (''expect(page.url()).resolves.toBe(''
                         @ quote_string ''https://example.com/'' @ '');''),
             indent 0 ''});'', EOF]"
proof -
  have h1: "\<forall>e \<in> set [FrameNavigated False ''https://example.com/'']. \<not> is_finalization e"
    and h3: "[PageClose, SIGINT, PageClose] \<noteq> []"
    and h4: "\<forall>t \<in> set [PageClose, SIGINT, PageClose]. is_finalization t"
    by simp_all
  from end_of_stream_once [OF h1 demo_navigated h3 h4] obtain r where
    "session ''example.com'' [] demo_options
       ([FrameNavigated False ''https://example.com/''] @ [PageClose, SIGINT, PageClose]) = Some r"
    "out r = [indent 0 require_line, indent 0 (open_line ''https://example.com''),
             indent 1 (''expect(page.url()).resolves.toBe(''
                         @ quote_string ''https://example.com/'' @ '');''),
             indent 0 ''});'', EOF]"
    by auto
  then show ?thesis by (simp add: demo_navigated)
qed

text \<open>
  A line is emitted with two spaces per level of the current depth in front and a newline
  behind. In a recording completed by one finalization trigger the depth is back at zero,
  and the output is the two opening lines at depth zero, the interaction lines at depth
  one, the closing line at depth zero and the end-of-stream marker.
\<close>

lemma one_finalization_balanced:
  assumes "\<forall>e \<in> set evs. \<not> is_finalization e" and "is_finalization t"
    and "session url fs options (evs @ [t]) = Some r"
  shows "addLineToPuppeteerScript line s =
           (if 0 \<le> identation s then Done (s\<lparr>out := out s @ [indent (identation s) line]\<rparr>)
            else Threw RangeError s)
    \<and> identation r = 0
    \<and> (\<exists>ls. out r =
          [indent 0 require_line,
           indent 0 (open_line (if prefix ''http'' url then url else ''https://'' @ url))]
          @ map (indent 1) ls @ [indent 0 ''});'', EOF])"
proof -
  let ?s0 = "started (if prefix ''http'' url then url else ''https://'' @ url) fs"
  from assms(3) obtain s1 where
    s1: "run options evs ?s0 = Some s1" "run options [t] s1 = Some r"
    by (auto simp: session_run run_append split: option.splits)
  from s1(1) have "session url fs options evs = Some s1" by (simp add: session_run)
  from recording_state [OF assms(1) this] obtain ls where
    s: "identation s1 = 1" "\<not> exited s1"
      "out s1 = [indent 0 require_line,
            indent 0 (open_line (if prefix ''http'' url then url else ''https://'' @ url))]
           @ map (indent 1) ls"
    by blast
  from run_one_finalization [OF s(1,2) assms(2), of options] s1(2)
  have "identation r = 0" "out r = out s1 @ [indent 0 ''});'', EOF]" by auto
  then show ?thesis
    using s(3) by (auto simp: addLine_nonneg addLine_neg indent_def)
qed

lemma one_finalization_balanced_example:
  "list_all (\<lambda>e. \<not> is_finalization e) [FrameNavigated False ''https://example.com/'']
   \<and> is_finalization PageClose
   \<and> map_option out
        (session ''example.com'' [] demo_options
           ([FrameNavigated False ''https://example.com/''] @ [PageClose])) =
       Some [indent 0 require_line, indent 0 (open_line ''https://example.com''),
             indent 1 (''expect(page.url()).resolves.toBe(''
                         @ quote_string ''https://example.com/'' @ '');''),
             indent 0 ''});'', EOF]
   \<and> map_option identation
        (session ''example.com'' [] demo_options
           ([FrameNavigated False ''https://example.com/''] @ [PageClose])) = Some 0"
proof -
  have h1: "\<forall>e \<in> set [FrameNavigated False ''https://example.com/'']. \<not> is_finalization e"
    and h2: "is_finalization PageClose"
    by simp_all
  have h3: "session ''example.com'' [] demo_options
     ([FrameNavigated False ''https://example.com/''] @ [PageClose]) =
     Some ((started ''https://example.com'' [])
            \<lparr>identation := 0,
             out := [indent 0 require_line, indent 0 (open_line ''https://example.com''),
                     indent 1 (''expect(page.url()).resolves.toBe(''
                                 @ quote_string ''https://example.com/'' @ '');''),
                     indent 0 ''});'', EOF]\<rparr>)"
    using demo_completed by simp
  from one_finalization_balanced [OF h1 h2 h3]
  have "identation ((started ''https://example.com'' [])
            \<lparr>identation := 0,
             out := [indent 0 require_line, indent 0 (open_line ''https://example.com''),
                     indent 1 (''expect(page.url()).resolves.toBe(''
                                 @ quote_string ''https://example.com/'' @ '');''),
                     indent 0 ''});'', EOF]\<rparr>) = 0"
    by blast
  then show ?thesis by (simp add: demo_completed)
qed

text \<open>
  Claim C7 holds for a recording completed by one finalization trigger
  (\<open>one_finalization_balanced\<close>) and fails when \<open>close\<close> runs a second time, since it lowers
  the depth on every call. In the recording where the page is closed and the process is
  then interrupted, the depth is raised once and lowered twice and ends at minus one; the
  second \<open>close\<close> throws a RangeError at the negative depth, so the listener of \<open>SIGINT\<close>
  does not reach the exit of the process. The output keeps its one opening and one closing
  line.
\<close>

theorem double_finalization_unbalanced:
  "map_option identation (session ''example.com'' [] demo_options [PageClose, SIGINT]) =
     Some (- 1)
   \<and> map_option rejections (session ''example.com'' [] demo_options [PageClose, SIGINT]) =
     Some [RangeError]
   \<and> map_option exited (session ''example.com'' [] demo_options [PageClose, SIGINT]) =
     Some False
   \<and> map_option requests (session ''example.com'' [] demo_options [PageClose, SIGINT]) =
     Some [Page_goto ''https://example.com'']
   \<and> map_option out (session ''example.com'' [] demo_options [PageClose, SIGINT]) =
     Some [Data (''const {open, click, type, submit, expect, scrollToBottom} = require(''
                   @ [CHR 0x27] @ ''@puppeteer/recorder'' @ [CHR 0x27] @ '');'' @ [CHR 0x0A]),
           Data (''open('' @ [CHR 0x27] @ ''https://example.com'' @ [CHR 0x27]
                   @ '', {}, async (page) => {'' @ [CHR 0x0A]),
           Data (''});'' @ [CHR 0x0A]),
           EOF]"
  by (simp add: session_run started_def close_def on_sigint_def addLineToPuppeteerScript_def
      repeat_def Let_def demo_options_def send_def require_line_def open_line_def)

text \<open>
  Claim C5 holds for every string that goes through \<open>escapeSelector\<close>
  (\<open>string_literal_quote_string\<close>, \<open>escapeSelector_string\<close>) and fails for the address
  in the opening line, which is put between single quotes as it is. For the address
  \<open>https://example.com/it's\<close> the literal of the opening line ends at the quote inside
  the address: it is read back as \<open>https://example.com/it\<close>, and the rest of the line is
  not a statement.
\<close>

theorem open_line_not_escaped:
  "start demo_url [] = Done (started demo_url [])
   \<and> out (started demo_url []) = [indent 0 require_line, indent 0 (open_line demo_url)]
   \<and> string_literal (drop 5 (open_line demo_url)) =
       Some (''https://example.com/it'', ''s'' @ [CHR 0x27] @ '', {}, async (page) => {'')
   \<and> ''https://example.com/it'' \<noteq> demo_url"
  by (simp add: start_eq started_fields demo_url_def open_line_def cons_value_def)

end
